theory Spec2Isabelle
  imports Main "HOL-Library.Sublist"
begin

section \<open>The integration-test harness of libeufin: util.py and test-ebics.py\<close>

text \<open>
  The harness is a Python script. Everything it does to the outside world (printing,
  running build commands, binding sockets, launching child processes, HTTP requests,
  sleeping) is recorded as an event in a log carried by the state; everything the outside
  world decides (whether a command succeeds, what a server answers) is read from an
  environment. A Python exception and a call of \<open>exit\<close> are values of type \<open>abort\<close>.
\<close>

subsection \<open>JSON values and the Python operations the harness applies to them\<close>

datatype json =
    JNull
  | JBool bool
  | JNum int
  | JStr string
  | JArr "json list"
  | JObj "(string \<times> json) list"

datatype exn =
    OSError
  | PermissionError
  | OverflowError
  | NameError
  | AttributeError
  | TypeError
  | CalledProcessError
  | ConnectionError
  | JSONDecodeError

text \<open>
  \<open>SystemExit n\<close> is what \<open>exit(n)\<close> and \<open>sys.exit(n)\<close> raise. \<open>Blocked\<close> is the outcome
  of a call that never returns: the process stays in it, nothing after it runs and
  nothing catches it.
\<close>

datatype abort = SystemExit nat | Raised exn | Blocked

fun exn_name :: "exn \<Rightarrow> string" where
  "exn_name OSError = ''OSError''"
| "exn_name PermissionError = ''PermissionError''"
| "exn_name OverflowError = ''OverflowError''"
| "exn_name NameError = ''NameError''"
| "exn_name AttributeError = ''AttributeError''"
| "exn_name TypeError = ''TypeError''"
| "exn_name CalledProcessError = ''CalledProcessError''"
| "exn_name ConnectionError = ''ConnectionError''"
| "exn_name JSONDecodeError = ''JSONDecodeError''"

text \<open>\<open>x.get(key)\<close>: a dict answers with the value or None; no other JSON value has \<open>get\<close>.\<close>

fun py_get :: "json \<Rightarrow> string \<Rightarrow> exn + json" where
  "py_get (JObj kvs) k = (case map_of kvs k of None \<Rightarrow> Inr JNull | Some v \<Rightarrow> Inr v)"
| "py_get _ k = Inl AttributeError"

text \<open>\<open>len(x)\<close>: defined on strings, lists and dicts; a TypeError on None, booleans and numbers.\<close>

fun py_len :: "json \<Rightarrow> exn + nat" where
  "py_len (JStr s) = Inr (length s)"
| "py_len (JArr xs) = Inr (length xs)"
| "py_len (JObj kvs) = Inr (length (remdups (map fst kvs)))"
| "py_len _ = Inl TypeError"

text \<open>\<open>name in x\<close> for a string \<open>name\<close>: key of a dict, element of a list, substring of a string.\<close>

fun py_in :: "string \<Rightarrow> json \<Rightarrow> exn + bool" where
  "py_in name (JObj kvs) = Inr (name \<in> set (map fst kvs))"
| "py_in name (JArr xs) = Inr (JStr name \<in> set xs)"
| "py_in name (JStr s) = Inr (sublist name s)"
| "py_in name _ = Inl TypeError"

subsection \<open>Requests, responses, events\<close>

record request =
  meth :: string
  url :: string
  headers :: "(string \<times> string) list"
  req_json :: "json option"

text \<open>
  A response of the \<open>requests\<close> library: \<open>ok\<close> is its status classification, \<open>json_body\<close>
  is what \<open>resp.json()\<close> parses out of the body (None when the body is not JSON).
\<close>

record response =
  ok :: bool
  status_code :: nat
  resp_text :: string
  json_body :: "json option"

text \<open>
  What a call of \<open>get\<close> or \<open>post\<close> meets: an answer, a connection that fails (the call
  raises), or a peer that never answers (the calls are made without a timeout, so the
  call never returns).
\<close>

datatype reply = Answer response | Refused | Silent

record child =
  child_name :: string
  argv :: "string list"
  stdout_log :: string
  stderr_log :: string

datatype event =
    Print string
  | CheckCall "string list"
  | Bind nat
  | Close nat
  | Popen child
  | Http request
  | Sleep nat
  | Terminate string
  | Wait string
  | Traceback exn

text \<open>
  The state of a run: the ports that are in use and the ports the process is not allowed
  to bind, the children that are running, the hooks registered with \<open>atexit\<close> (each hook
  is \<open>lambda: kill(name, process)\<close>, kept as the name, oldest first), and the log of what
  the run has done so far, oldest first.
\<close>

record state =
  busy_ports :: "nat list"
  denied_ports :: "nat list"
  running :: "string list"
  atexit_hooks :: "string list"
  events :: "event list"

text \<open>
  The environment. \<open>db_path\<close> stands for \<open>str(Path.cwd() / dbname)\<close>; \<open>check_call_ok\<close> says
  whether a command run by \<open>check_call\<close> exits with status 0; \<open>server\<close> is what a request
  meets, given the requests sent before it; \<open>py_str\<close> is
  Python's formatting of a value that is not a string. The module \<open>json_checks\<close>
  imported by test-ebics.py is not part of the sources: its two functions are parameters,
  each returning what it prints and either an abort or its result.
\<close>

record env =
  db_path :: "string \<Rightarrow> string"
  check_call_ok :: "string list \<Rightarrow> bool"
  server :: "request list \<Rightarrow> request \<Rightarrow> reply"
  py_str :: "json \<Rightarrow> string"
  checkFetchTransactions :: "json \<Rightarrow> string list \<times> (abort + json)"
  checkPreparedPaymentElement :: "json \<Rightarrow> string list \<times> (abort + unit)"

subsection \<open>Sequencing with aborts\<close>

type_synonym 'a prog = "state \<Rightarrow> state \<times> (abort + 'a)"

definition ret :: "'a \<Rightarrow> 'a prog" where
  "ret x s = (s, Inr x)"

definition raise :: "abort \<Rightarrow> 'a prog" where
  "raise a s = (s, Inl a)"

definition bnd :: "'a prog \<Rightarrow> ('a \<Rightarrow> 'b prog) \<Rightarrow> 'b prog" where
  "bnd m f s = (case m s of (s', Inl a) \<Rightarrow> (s', Inl a) | (s', Inr x) \<Rightarrow> f x s')"

text \<open>
  \<open>try: m except: h\<close> with a bare except clause: it catches every exception, SystemExit
  included, and the handler can read what was caught (\<open>sys.exc_info()\<close>). A call that
  never returns is not an exception.
\<close>

definition try_except :: "'a prog \<Rightarrow> (abort \<Rightarrow> 'a prog) \<Rightarrow> 'a prog" where
  "try_except m h s =
     (case m s of
        (s', Inl Blocked) \<Rightarrow> (s', Inl Blocked)
      | (s', Inl a) \<Rightarrow> h a s'
      | (s', Inr x) \<Rightarrow> (s', Inr x))"

definition emit :: "event \<Rightarrow> unit prog" where
  "emit e s = (s\<lparr>events := events s @ [e]\<rparr>, Inr ())"

definition lift_exn :: "exn + 'a \<Rightarrow> 'a prog" where
  "lift_exn r = (case r of Inl e \<Rightarrow> raise (Raised e) | Inr x \<Rightarrow> ret x)"

definition py_print :: "string \<Rightarrow> unit prog" where
  "py_print msg = emit (Print msg)"

definition py_exit :: "nat \<Rightarrow> 'a prog" where
  "py_exit code = raise (SystemExit code)"

definition sleep :: "nat \<Rightarrow> unit prog" where
  "sleep n = emit (Sleep n)"

fun print_all :: "string list \<Rightarrow> unit prog" where
  "print_all [] = ret ()"
| "print_all (l # ls) = bnd (py_print l) (\<lambda>_. print_all ls)"

subsection \<open>Decimal formatting of a number inside an f-string\<close>

definition digit_char :: "nat \<Rightarrow> char" where
  "digit_char d = ''0123456789'' ! (d mod 10)"

function show_nat :: "nat \<Rightarrow> string" where
  "show_nat n = (if n < 10 then [digit_char n] else show_nat (n div 10) @ [digit_char (n mod 10)])"
  by pat_completeness auto
termination
  by (relation "measure id") auto

declare show_nat.simps [simp del]

subsection \<open>util.py: the JSON structural checkers\<close>

datatype check = CheckJsonField (name: string) (nested: "check list")

definition apostrophe :: string where
  "apostrophe = [CHR 0x27]"

text \<open>
  Attribute lookup on an instance of CheckJsonField: \<open>__init__\<close> sets \<open>name\<close> and \<open>nested\<close>,
  the class defines \<open>check\<close>; any other attribute raises AttributeError.
\<close>

definition CheckJsonField_getattr :: "string \<Rightarrow> unit prog" where
  "CheckJsonField_getattr a =
     (if a \<in> set [''name'', ''nested'', ''check'', ''__init__''] then ret ()
      else raise (Raised AttributeError))"

text \<open>
  The loop \<open>for nested_check in self.nested: self.nested_check.check(json.get(self.name))\<close>.
  The body does not use the loop variable: it looks \<open>nested_check\<close> up on \<open>self\<close>, which is
  evaluated before the argument and raises, so nothing after the lookup is reached.
\<close>

fun CheckJsonField_loop :: "check list \<Rightarrow> unit prog" where
  "CheckJsonField_loop [] = ret ()"
| "CheckJsonField_loop (c # cs) =
     bnd (CheckJsonField_getattr ''nested_check'') (\<lambda>_. CheckJsonField_loop cs)"

definition CheckJsonField_check :: "check \<Rightarrow> json \<Rightarrow> unit prog" where
  "CheckJsonField_check self j =
     bnd (lift_exn (py_in (name self) j)) (\<lambda>present.
       bnd (if \<not> present
            then bnd (py_print (apostrophe @ name self @ apostrophe @ '' not found in the JSON.''))
                     (\<lambda>_. py_exit 1)
            else ret ())
           (\<lambda>_. CheckJsonField_loop (nested self)))"

fun CheckJsonTop_check :: "check list \<Rightarrow> json \<Rightarrow> unit prog" where
  "CheckJsonTop_check [] j = ret ()"
| "CheckJsonTop_check (c # cs) j = bnd (CheckJsonField_check c j) (\<lambda>_. CheckJsonTop_check cs j)"

subsection \<open>util.py: checkPort and kill\<close>

text \<open>
  What \<open>s.bind(("0.0.0.0", port))\<close> raises: OverflowError for a port number above 65535
  (checked before the system is asked), PermissionError for a port the process may not
  bind, OSError for a port in use; nothing otherwise.
\<close>

definition bind_error :: "nat \<Rightarrow> state \<Rightarrow> exn option" where
  "bind_error port s =
     (if 65535 < port then Some OverflowError
      else if port \<in> set (denied_ports s) then Some PermissionError
      else if port \<in> set (busy_ports s) then Some OSError
      else None)"

definition socket_bind :: "nat \<Rightarrow> unit prog" where
  "socket_bind port s =
     (case bind_error port s of
        Some e \<Rightarrow> (s\<lparr>events := events s @ [Bind port]\<rparr>, Inl (Raised e))
      | None \<Rightarrow> (s\<lparr>busy_ports := port # busy_ports s, events := events s @ [Bind port]\<rparr>, Inr ()))"

definition socket_close :: "nat \<Rightarrow> unit prog" where
  "socket_close port s =
     (s\<lparr>busy_ports := remove1 port (busy_ports s), events := events s @ [Close port]\<rparr>, Inr ())"

text \<open>\<open>print(sys.exc_info()[0])\<close>: the class of what was caught, as Python prints a class.\<close>

fun exc_class :: "abort \<Rightarrow> string" where
  "exc_class (Raised e) = ''<class '' @ apostrophe @ exn_name e @ apostrophe @ ''>''"
| "exc_class (SystemExit n) = ''<class '' @ apostrophe @ ''SystemExit'' @ apostrophe @ ''>''"
| "exc_class Blocked = []"

definition checkPort :: "nat \<Rightarrow> unit prog" where
  "checkPort port =
     try_except
       (bnd (socket_bind port) (\<lambda>_. socket_close port))
       (\<lambda>caught.
        bnd (py_print (''Port '' @ show_nat port @ '' is not available'')) (\<lambda>_.
        bnd (py_print (exc_class caught)) (\<lambda>_.
        py_exit 77)))"

text \<open>
  The methods of a child process. \<open>Popen\<close> starts it; \<open>terminate\<close> stops it if it runs and
  does nothing to one that is dead already; \<open>wait\<close> returns once the child is dead, so it
  never returns on one that still runs.
\<close>

definition popen :: "child \<Rightarrow> unit prog" where
  "popen c s =
     (s\<lparr>running := running s @ [child_name c], events := events s @ [Popen c]\<rparr>, Inr ())"

definition terminate :: "string \<Rightarrow> unit prog" where
  "terminate nm s =
     (s\<lparr>running := removeAll nm (running s), events := events s @ [Terminate nm]\<rparr>, Inr ())"

definition wait :: "string \<Rightarrow> unit prog" where
  "wait nm s =
     (if nm \<in> set (running s) then (s\<lparr>events := events s @ [Wait nm]\<rparr>, Inl Blocked)
      else (s\<lparr>events := events s @ [Wait nm]\<rparr>, Inr ()))"

definition kill :: "string \<Rightarrow> unit prog" where
  "kill nm =
     bnd (py_print (''terminating '' @ nm @ '' ...'')) (\<lambda>_.
     bnd (terminate nm) (\<lambda>_.
     bnd (wait nm) (\<lambda>_.
     py_print ''terminated!'')))"

subsection \<open>util.py: HTTP calls, build commands, child processes\<close>

text \<open>The requests among the events of a log, and those a run has sent so far.\<close>

fun requests_of :: "event list \<Rightarrow> request list" where
  "requests_of [] = []"
| "requests_of (Http r # es) = r # requests_of es"
| "requests_of (_ # es) = requests_of es"

definition sent :: "state \<Rightarrow> request list" where
  "sent s = requests_of (events s)"

text \<open>
  A call of the \<open>requests\<close> library: it returns the response, raises when the connection
  fails, and never returns when the peer never answers.
\<close>

definition http :: "env \<Rightarrow> request \<Rightarrow> response prog" where
  "http env r s =
     (case server env (sent s) r of
        Answer resp \<Rightarrow> (s\<lparr>events := events s @ [Http r]\<rparr>, Inr resp)
      | Refused \<Rightarrow> (s\<lparr>events := events s @ [Http r]\<rparr>, Inl (Raised ConnectionError))
      | Silent \<Rightarrow> (s\<lparr>events := events s @ [Http r]\<rparr>, Inl Blocked))"

definition post :: "env \<Rightarrow> string \<Rightarrow> json option \<Rightarrow> (string \<times> string) list \<Rightarrow> response prog" where
  "post env u j hs = http env \<lparr>meth = ''POST'', url = u, headers = hs, req_json = j\<rparr>"

definition get :: "env \<Rightarrow> string \<Rightarrow> (string \<times> string) list \<Rightarrow> response prog" where
  "get env u hs = http env \<lparr>meth = ''GET'', url = u, headers = hs, req_json = None\<rparr>"

text \<open>\<open>check_call\<close> raises CalledProcessError when the command exits with a non-zero status.\<close>

definition check_call :: "env \<Rightarrow> string list \<Rightarrow> unit prog" where
  "check_call env cmd =
     bnd (emit (CheckCall cmd)) (\<lambda>_.
       if check_call_ok env cmd then ret () else raise (Raised CalledProcessError))"

definition atexit_register :: "string \<Rightarrow> unit prog" where
  "atexit_register nm s = (s\<lparr>atexit_hooks := atexit_hooks s @ [nm]\<rparr>, Inr ())"

text \<open>
  The names bound at module level in util.py. A name that a function does not assign is
  looked up here; a name that is not here raises NameError.
\<close>

definition util_globals :: "string list" where
  "util_globals =
     [''check_call'', ''Popen'', ''PIPE'', ''DEVNULL'', ''socket'', ''post'', ''get'', ''sleep'',
      ''atexit'', ''Path'', ''sys'', ''CheckJsonField'', ''CheckJsonTop'', ''checkPort'', ''kill'',
      ''startSandbox'', ''startNexus'']"

definition util_global :: "string \<Rightarrow> unit prog" where
  "util_global x = (if x \<in> set util_globals then ret () else raise (Raised NameError))"

text \<open>
  \<open>communicate()\<close> on a process whose stdout and stderr are not pipes (both services write
  to log files) returns the pair (None, None); \<open>decode\<close> on None raises AttributeError.
\<close>

definition communicate :: "(string option \<times> string option) prog" where
  "communicate = ret (None, None)"

definition decode :: "string option \<Rightarrow> string prog" where
  "decode b = (case b of None \<Rightarrow> raise (Raised AttributeError) | Some t \<Rightarrow> ret t)"

definition newline :: string where
  "newline = [CHR 0x0A]"

subsection \<open>util.py: startSandbox\<close>

text \<open>Lines 66 to 69: the branch taken when the tenth probe has failed.\<close>

definition sandbox_timed_out :: "unit prog" where
  "sandbox_timed_out =
     bnd (util_global ''nexus'') (\<lambda>_.
     bnd communicate (\<lambda>(out, err).
     bnd (py_print ''Sandbox timed out'') (\<lambda>_.
     bnd (decode out) (\<lambda>o_text.
     bnd (decode err) (\<lambda>e_text.
     bnd (py_print (o_text @ newline @ e_text)) (\<lambda>_.
     py_exit 77))))))"

text \<open>
  The loop \<open>for i in range(10)\<close> of lines 61 to 72, run on the list of the values of \<open>i\<close>
  that are left. The bare except clause turns any failure of the probe into the retry
  branch; a probe that returns leaves the loop.
\<close>

fun sandbox_poll :: "env \<Rightarrow> nat list \<Rightarrow> unit prog" where
  "sandbox_poll env [] = ret ()"
| "sandbox_poll env (i # rest) =
     bnd (try_except (bnd (get env ''http://localhost:5000/'' []) (\<lambda>_. ret True))
                     (\<lambda>_. ret False))
       (\<lambda>up. if up then ret ()
              else bnd (if i = 9 then sandbox_timed_out else ret ()) (\<lambda>_.
                   bnd (sleep 2) (\<lambda>_.
                   sandbox_poll env rest)))"

definition sandbox_child :: "string \<Rightarrow> child" where
  "sandbox_child db_full_path =
     \<lparr>child_name = ''sandbox'',
      argv = [''../gradlew'', ''-p'', ''..'', ''sandbox:run'', ''--console=plain'',
              ''--args=serve --db-name='' @ db_full_path],
      stdout_log = ''sandbox-stdout.log'',
      stderr_log = ''sandbox-stderr.log''\<rparr>"

definition startSandbox :: "env \<Rightarrow> string \<Rightarrow> unit prog" where
  "startSandbox env dbname =
     (let db_full_path = db_path env dbname in
      bnd (check_call env [''rm'', ''-f'', db_full_path]) (\<lambda>_.
      bnd (check_call env [''../gradlew'', ''-p'', ''..'', ''sandbox:assemble'']) (\<lambda>_.
      bnd (checkPort 5000) (\<lambda>_.
      bnd (popen (sandbox_child db_full_path)) (\<lambda>_.
      bnd (atexit_register ''sandbox'') (\<lambda>_.
      sandbox_poll env [0..<10]))))))"

subsection \<open>util.py: startNexus\<close>

definition nexus_timed_out :: "unit prog" where
  "nexus_timed_out =
     bnd (terminate ''nexus'') (\<lambda>_.
     bnd (py_print ''Nexus timed out'') (\<lambda>_.
     py_exit 77))"

fun nexus_poll :: "env \<Rightarrow> nat list \<Rightarrow> unit prog" where
  "nexus_poll env [] = ret ()"
| "nexus_poll env (i # rest) =
     bnd (try_except (bnd (get env ''http://localhost:5001/'' []) (\<lambda>_. ret True))
                     (\<lambda>_. ret False))
       (\<lambda>up. if up then ret ()
              else bnd (if i = 79 then nexus_timed_out else ret ()) (\<lambda>_.
                   bnd (sleep 1) (\<lambda>_.
                   nexus_poll env rest)))"

definition nexus_child :: "string \<Rightarrow> child" where
  "nexus_child db_full_path =
     \<lparr>child_name = ''nexus'',
      argv = [''../gradlew'', ''-p'', ''..'', ''nexus:run'', ''--console=plain'',
              ''--args=serve --db-name='' @ db_full_path],
      stdout_log = ''nexus-stdout.log'',
      stderr_log = ''nexus-stderr.log''\<rparr>"

definition startNexus :: "env \<Rightarrow> string \<Rightarrow> child prog" where
  "startNexus env dbname =
     (let db_full_path = db_path env dbname in
      bnd (check_call env [''rm'', ''-f'', ''--'', db_full_path]) (\<lambda>_.
      bnd (check_call env [''../gradlew'', ''-p'', ''..'', ''nexus:assemble'']) (\<lambda>_.
      bnd (check_call env [''../gradlew'', ''-p'', ''..'', ''nexus:run'', ''--console=plain'',
                           ''--args=superuser admin --password x --db-name='' @ db_full_path]) (\<lambda>_.
      bnd (checkPort 5001) (\<lambda>_.
      bnd (popen (nexus_child db_full_path)) (\<lambda>_.
      bnd (atexit_register ''nexus'') (\<lambda>_.
      bnd (nexus_poll env [0..<80]) (\<lambda>_.
      ret (nexus_child db_full_path)))))))))"

subsection \<open>The end of the Python process\<close>

text \<open>
  An uncaught exception prints its traceback and gives exit status 1; \<open>exit(n)\<close> gives
  status \<open>n\<close>; running off the end of the script gives 0. In each case the hooks registered
  with \<open>atexit\<close> then run, last registered first. A script that is stuck in a call that
  never returns does not end: no hook runs and there is no exit status.
\<close>

fun exit_status :: "abort + 'a \<Rightarrow> nat option" where
  "exit_status (Inr _) = Some 0"
| "exit_status (Inl (SystemExit n)) = Some n"
| "exit_status (Inl (Raised e)) = Some 1"
| "exit_status (Inl Blocked) = None"

fun run_hooks :: "string list \<Rightarrow> unit prog" where
  "run_hooks [] = ret ()"
| "run_hooks (h # hs) = bnd (kill h) (\<lambda>_. run_hooks hs)"

definition traceback :: "abort + 'a \<Rightarrow> unit prog" where
  "traceback r = (case r of Inl (Raised e) \<Rightarrow> emit (Traceback e) | _ \<Rightarrow> ret ())"

definition python :: "'a prog \<Rightarrow> state \<Rightarrow> state \<times> nat option" where
  "python script s =
     (case script s of (s1, r) \<Rightarrow>
        (if exit_status r = None then s1
         else fst (bnd (traceback r) (\<lambda>_. run_hooks (rev (atexit_hooks s1))) s1),
         exit_status r))"

text \<open>The state in which a process starts: no child, no hook, an empty log.\<close>

definition fresh :: "nat list \<Rightarrow> nat list \<Rightarrow> state" where
  "fresh busy denied =
     \<lparr>busy_ports = busy, denied_ports = denied, running = [], atexit_hooks = [], events = []\<rparr>"

subsection \<open>base64.b64encode\<close>

definition b64_alphabet :: string where
  "b64_alphabet = ''ABCDEFGHIJKLMNOPQRSTUVWXYZabcdefghijklmnopqrstuvwxyz0123456789+/''"

definition b64_char :: "nat \<Rightarrow> char" where
  "b64_char n = b64_alphabet ! (n mod 64)"

fun b64_groups :: "nat list \<Rightarrow> string" where
  "b64_groups (a # b # c # rest) =
     (let n = a * 65536 + b * 256 + c
      in [b64_char (n div 262144), b64_char (n div 4096), b64_char (n div 64), b64_char n])
     @ b64_groups rest"
| "b64_groups [a, b] =
     (let n = a * 65536 + b * 256
      in [b64_char (n div 262144), b64_char (n div 4096), b64_char (n div 64), CHR ''=''])"
| "b64_groups [a] =
     (let n = a * 65536
      in [b64_char (n div 262144), b64_char (n div 4096), CHR ''='', CHR ''=''])"
| "b64_groups [] = []"

definition b64encode :: "string \<Rightarrow> string" where
  "b64encode bytes = b64_groups (map of_char bytes)"

subsection \<open>test-ebics.py: constants\<close>

definition USERNAME :: string where "USERNAME = ''person''"
definition PASSWORD :: string where "PASSWORD = ''y''"

definition USER_AUTHORIZATION_HEADER :: string where
  "USER_AUTHORIZATION_HEADER = ''basic '' @ b64encode ''person:y''"

definition ADMIN_AUTHORIZATION_HEADER :: string where
  "ADMIN_AUTHORIZATION_HEADER = ''basic '' @ b64encode ''admin:x''"

definition EBICS_URL :: string where "EBICS_URL = ''http://localhost:5000/ebicsweb''"
definition HOST_ID :: string where "HOST_ID = ''HOST01''"
definition PARTNER_ID :: string where "PARTNER_ID = ''PARTNER1''"
definition USER_ID :: string where "USER_ID = ''USER1''"
definition EBICS_VERSION :: string where "EBICS_VERSION = ''H004''"
definition SUBSCRIBER_IBAN :: string where "SUBSCRIBER_IBAN = ''GB33BUKB20201555555555''"
definition SUBSCRIBER_BIC :: string where "SUBSCRIBER_BIC = ''BUKBGB22''"
definition SUBSCRIBER_NAME :: string where "SUBSCRIBER_NAME = ''Oliver Smith''"
definition BANK_ACCOUNT_LABEL :: string where "BANK_ACCOUNT_LABEL = ''savings''"
definition NEXUS_DB :: string where "NEXUS_DB = ''test-nexus.sqlite3''"

definition user_headers :: "(string \<times> string) list" where
  "user_headers = [(''Authorization'', USER_AUTHORIZATION_HEADER)]"

definition admin_headers :: "(string \<times> string) list" where
  "admin_headers = [(''Authorization'', ADMIN_AUTHORIZATION_HEADER)]"

subsection \<open>test-ebics.py: helpers\<close>

definition fail :: "string \<Rightarrow> 'a prog" where
  "fail msg = bnd (py_print msg) (\<lambda>_. py_exit 1)"

text \<open>
  Modelled from the spec: \<open>assertResponse\<close> is imported from util by test-ebics.py, but
  util.py does not define it. The spec (HTTP Response Assertion Layer) says: inspect the
  status classification of one response; if it denotes failure, print the status and the
  body and terminate the process with a failing exit code; if it denotes success,
  return the response unchanged. The failing exit code is taken to be 1.
\<close>

definition assertResponse :: "response \<Rightarrow> response prog" where
  "assertResponse resp =
     (if ok resp then ret resp
      else bnd (py_print (show_nat (status_code resp))) (\<lambda>_.
           bnd (py_print (resp_text resp)) (\<lambda>_.
           py_exit 1)))"

text \<open>\<open>resp.json()\<close> raises when the body is not JSON.\<close>

definition resp_json :: "response \<Rightarrow> json prog" where
  "resp_json resp = (case json_body resp of None \<Rightarrow> raise (Raised JSONDecodeError) | Some j \<Rightarrow> ret j)"

text \<open>A value inside an f-string: a string stands for itself, anything else is formatted.\<close>

definition fmt :: "env \<Rightarrow> json \<Rightarrow> string" where
  "fmt env v = (case v of JStr t \<Rightarrow> t | _ \<Rightarrow> py_str env v)"

text \<open>A call of one of the two functions of \<open>json_checks\<close>.\<close>

definition json_check :: "string list \<times> (abort + 'a) \<Rightarrow> 'a prog" where
  "json_check c = bnd (print_all (fst c)) (\<lambda>_. case snd c of Inl a \<Rightarrow> raise a | Inr x \<Rightarrow> ret x)"

text \<open>\<open>len(resp.json().get("transactions"))\<close>\<close>

definition transaction_count :: "response \<Rightarrow> nat prog" where
  "transaction_count resp =
     bnd (resp_json resp) (\<lambda>j.
     bnd (lift_exn (py_get j ''transactions'')) (\<lambda>ts.
     lift_exn (py_len ts)))"

definition nexus :: "string \<Rightarrow> string" where
  "nexus path = ''http://localhost:5001'' @ path"

definition sandbox :: "string \<Rightarrow> string" where
  "sandbox path = ''http://localhost:5000'' @ path"

definition fetch_body :: json where
  "fetch_body = JObj [(''level'', JStr ''all''), (''rangeType'', JStr ''all'')]"

subsection \<open>test-ebics.py: the scenario, last step first\<close>

text \<open>
  Each definition is the script from one of its numbered comments to its end, so that
  what follows a step is part of what the step is followed by.
\<close>

definition from_step_6 :: "env \<Rightarrow> unit prog" where
  "from_step_6 env =
     bnd (json_check (checkFetchTransactions env fetch_body)) (\<lambda>body.
     bnd (post env (nexus (''/bank-accounts/'' @ BANK_ACCOUNT_LABEL @ ''/fetch-transactions''))
            (Some body) user_headers) (\<lambda>r.
     bnd (assertResponse r) (\<lambda>_.
     bnd (get env (nexus (''/bank-accounts/'' @ BANK_ACCOUNT_LABEL @ ''/transactions''))
            user_headers) (\<lambda>r.
     bnd (assertResponse r) (\<lambda>resp.
     bnd (transaction_count resp) (\<lambda>n.
     bnd (if n \<noteq> 1 then fail ''Unexpected number of transactions; should be 1'' else ret ()) (\<lambda>_.
     py_print ''Test passed!'')))))))"

definition from_step_5b :: "env \<Rightarrow> json \<Rightarrow> unit prog" where
  "from_step_5b env uuid =
     bnd (post env (nexus (''/bank-accounts/'' @ BANK_ACCOUNT_LABEL @ ''/payment-initiations/''
                           @ fmt env uuid @ ''/submit''))
            (Some (JObj [])) user_headers) (\<lambda>r.
     bnd (assertResponse r) (\<lambda>_.
     from_step_6 env))"

definition payment_body :: json where
  "payment_body =
     JObj [(''iban'', JStr ''FR7630006000011234567890189''),
           (''bic'', JStr ''AGRIFRPP''),
           (''name'', JStr ''Jacques La Fayette''),
           (''subject'', JStr ''integration test''),
           (''amount'', JStr ''EUR:1'')]"

text \<open>Lines 190 to 195 and what follows: the prepared payment is read back and checked.\<close>

definition from_get_payment :: "env \<Rightarrow> json \<Rightarrow> unit prog" where
  "from_get_payment env uuid =
     bnd (get env (nexus (''/bank-accounts/'' @ BANK_ACCOUNT_LABEL @ ''/payment-initiations/''
                          @ fmt env uuid))
            user_headers) (\<lambda>r.
     bnd (assertResponse r) (\<lambda>resp.
     bnd (resp_json resp) (\<lambda>j.
     bnd (json_check (checkPreparedPaymentElement env j)) (\<lambda>_.
     from_step_5b env uuid))))"

definition from_step_5a :: "env \<Rightarrow> unit prog" where
  "from_step_5a env =
     bnd (post env (nexus (''/bank-accounts/'' @ BANK_ACCOUNT_LABEL @ ''/payment-initiations''))
            (Some payment_body) user_headers) (\<lambda>r.
     bnd (assertResponse r) (\<lambda>resp.
     bnd (resp_json resp) (\<lambda>j.
     bnd (lift_exn (py_get j ''uuid'')) (\<lambda>PREPARED_PAYMENT_UUID.
     bnd (if PREPARED_PAYMENT_UUID = JNull then fail ''Payment UUID not received'' else ret ()) (\<lambda>_.
     from_get_payment env PREPARED_PAYMENT_UUID)))))"

definition from_step_4 :: "env \<Rightarrow> unit prog" where
  "from_step_4 env =
     bnd (get env (nexus (''/bank-accounts/'' @ BANK_ACCOUNT_LABEL @ ''/transactions''))
            user_headers) (\<lambda>r.
     bnd (assertResponse r) (\<lambda>resp.
     bnd (transaction_count resp) (\<lambda>n.
     bnd (if n \<noteq> 0 then fail ''unexpected number of transactions'' else ret ()) (\<lambda>_.
     from_step_5a env))))"

definition from_step_3 :: "env \<Rightarrow> unit prog" where
  "from_step_3 env =
     bnd (post env (nexus (''/bank-accounts/'' @ BANK_ACCOUNT_LABEL @ ''/fetch-transactions''))
            (Some fetch_body) user_headers) (\<lambda>r.
     bnd (assertResponse r) (\<lambda>_.
     from_step_4 env))"

text \<open>A step that posts, asserts the response and uses nothing of it.\<close>

definition asserted_post :: "env \<Rightarrow> string \<Rightarrow> json option \<Rightarrow> (string \<times> string) list \<Rightarrow> unit prog" where
  "asserted_post env u j hs = bnd (post env u j hs) (\<lambda>r. bnd (assertResponse r) (\<lambda>_. ret ()))"

definition subscriber :: json where
  "subscriber = JObj [(''hostID'', JStr HOST_ID), (''partnerID'', JStr PARTNER_ID), (''userID'', JStr USER_ID)]"

definition from_step_1a :: "env \<Rightarrow> unit prog" where
  "from_step_1a env =
     bnd (asserted_post env (nexus ''/users'')
            (Some (JObj [(''username'', JStr USERNAME), (''password'', JStr PASSWORD)]))
            admin_headers) (\<lambda>_.
     bnd (py_print ''creating bank connection'') (\<lambda>_.
     bnd (asserted_post env (nexus ''/bank-connections'')
            (Some (JObj [(''name'', JStr ''my-ebics''), (''source'', JStr ''new''),
                         (''type'', JStr ''ebics''),
                         (''data'', JObj [(''ebicsURL'', JStr EBICS_URL), (''hostID'', JStr HOST_ID),
                                          (''partnerID'', JStr PARTNER_ID), (''userID'', JStr USER_ID)])]))
            user_headers) (\<lambda>_.
     bnd (py_print ''sending ini & hia'') (\<lambda>_.
     bnd (asserted_post env (nexus ''/bank-connections/my-ebics/ebics/send-ini'')
            (Some (JObj [])) user_headers) (\<lambda>_.
     bnd (asserted_post env (nexus ''/bank-connections/my-ebics/ebics/send-hia'')
            (Some (JObj [])) user_headers) (\<lambda>_.
     bnd (asserted_post env (nexus ''/bank-connections/my-ebics/ebics/send-hpb'')
            (Some (JObj [])) user_headers) (\<lambda>_.
     bnd (asserted_post env (nexus ''/bank-connections/my-ebics/ebics/download/tsd'')
            None user_headers) (\<lambda>_.
     bnd (asserted_post env (nexus ''/bank-connections/my-ebics/ebics/import-accounts'')
            (Some (JObj [])) user_headers) (\<lambda>_.
     from_step_3 env)))))))))"

definition from_step_0 :: "env \<Rightarrow> unit prog" where
  "from_step_0 env =
     bnd (asserted_post env (sandbox ''/admin/ebics/host'')
            (Some (JObj [(''hostID'', JStr HOST_ID), (''ebicsVersion'', JStr EBICS_VERSION)])) []) (\<lambda>_.
     bnd (asserted_post env (sandbox ''/admin/ebics/subscribers'') (Some subscriber) []) (\<lambda>_.
     bnd (asserted_post env (sandbox ''/admin/ebics/bank-accounts'')
            (Some (JObj [(''subscriber'', subscriber), (''iban'', JStr SUBSCRIBER_IBAN),
                         (''bic'', JStr SUBSCRIBER_BIC), (''name'', JStr SUBSCRIBER_NAME),
                         (''label'', JStr BANK_ACCOUNT_LABEL)])) []) (\<lambda>_.
     from_step_1a env)))"

definition test_ebics :: "env \<Rightarrow> unit prog" where
  "test_ebics env =
     bnd (startSandbox env ''sandbox-test.sqlite3'') (\<lambda>_.
     bnd (startNexus env NEXUS_DB) (\<lambda>_.
     from_step_0 env))"

subsection \<open>Notions used to state the properties\<close>

text \<open>The state after some more events have been logged.\<close>

definition logged :: "state \<Rightarrow> event list \<Rightarrow> state" where
  "logged s es = s\<lparr>events := events s @ es\<rparr>"

text \<open>
  A program that, from any state, only appends events that satisfy \<open>P\<close> to the log and
  leaves the rest of the state as it was.
\<close>

definition emits :: "(event \<Rightarrow> bool) \<Rightarrow> 'a prog \<Rightarrow> bool" where
  "emits P m = (\<forall>s. \<exists>es. fst (m s) = logged s es \<and> list_all P es)"

text \<open>A program that, whatever else it does to the state, appends only such events.\<close>

definition records :: "(event \<Rightarrow> bool) \<Rightarrow> 'a prog \<Rightarrow> bool" where
  "records P m = (\<forall>s. \<exists>es. events (fst (m s)) = events s @ es \<and> list_all P es)"

text \<open>Concrete environments: every build command succeeds, the checkers of json_checks pass.\<close>

definition ok_response :: "json \<Rightarrow> response" where
  "ok_response j = \<lparr>ok = True, status_code = 200, resp_text = [], json_body = Some j\<rparr>"

definition env_of :: "(request list \<Rightarrow> request \<Rightarrow> reply) \<Rightarrow> env" where
  "env_of srv =
     \<lparr>db_path = (\<lambda>n. ''/tmp/'' @ n), check_call_ok = (\<lambda>_. True), server = srv,
      py_str = (\<lambda>_. ''?''), checkFetchTransactions = (\<lambda>j. ([], Inr j)),
      checkPreparedPaymentElement = (\<lambda>_. ([], Inr ()))\<rparr>"

text \<open>
  A server that is never reachable, one that accepts every request and never answers,
  and one that gives the same answer to every request.
\<close>

definition unreachable :: "request list \<Rightarrow> request \<Rightarrow> reply" where
  "unreachable hist r = Refused"

definition silent :: "request list \<Rightarrow> request \<Rightarrow> reply" where
  "silent hist r = Silent"

definition always :: "response \<Rightarrow> request list \<Rightarrow> request \<Rightarrow> reply" where
  "always resp hist r = Answer resp"

text \<open>The requests the scenario sends in the steps the properties below are about.\<close>

definition transactions_request :: request where
  "transactions_request =
     \<lparr>meth = ''GET'', url = nexus (''/bank-accounts/'' @ BANK_ACCOUNT_LABEL @ ''/transactions''),
      headers = user_headers, req_json = None\<rparr>"

definition fetch_request :: "json \<Rightarrow> request" where
  "fetch_request body =
     \<lparr>meth = ''POST'', url = nexus (''/bank-accounts/'' @ BANK_ACCOUNT_LABEL @ ''/fetch-transactions''),
      headers = user_headers, req_json = Some body\<rparr>"

definition payment_request :: request where
  "payment_request =
     \<lparr>meth = ''POST'', url = nexus (''/bank-accounts/'' @ BANK_ACCOUNT_LABEL @ ''/payment-initiations''),
      headers = user_headers, req_json = Some payment_body\<rparr>"

definition payment_get_request :: "string \<Rightarrow> request" where
  "payment_get_request uuid =
     \<lparr>meth = ''GET'',
      url = nexus (''/bank-accounts/'' @ BANK_ACCOUNT_LABEL @ ''/payment-initiations/'' @ uuid),
      headers = user_headers, req_json = None\<rparr>"

definition submit_request :: "string \<Rightarrow> request" where
  "submit_request uuid =
     \<lparr>meth = ''POST'',
      url = nexus (''/bank-accounts/'' @ BANK_ACCOUNT_LABEL @ ''/payment-initiations/'' @ uuid @ ''/submit''),
      headers = user_headers, req_json = Some (JObj [])\<rparr>"

text \<open>An answer whose payment identifier is the empty string.\<close>

definition empty_uuid_reply :: response where
  "empty_uuid_reply = ok_response (JObj [(''uuid'', JStr []), (''transactions'', JArr [JNull])])"

text \<open>
  The endpoints, as the interface description lists them. The admin endpoints are
  \<open>POST /users\<close> of the gateway and the paths below \<open>/admin/\<close> of the simulator; \<open>GET /\<close>
  is the readiness probe of either service; every other path of the gateway is a user
  endpoint.
\<close>

definition authorization :: "request \<Rightarrow> string option" where
  "authorization r = map_of (headers r) ''Authorization''"

definition gateway_admin :: "request \<Rightarrow> bool" where
  "gateway_admin r = (url r = nexus ''/users'')"

definition simulator_admin :: "request \<Rightarrow> bool" where
  "simulator_admin r = prefix (sandbox ''/admin/'') (url r)"

definition admin_endpoint :: "request \<Rightarrow> bool" where
  "admin_endpoint r = (gateway_admin r \<or> simulator_admin r)"

definition readiness_probe :: "request \<Rightarrow> bool" where
  "readiness_probe r = (url r = sandbox ''/'' \<or> url r = nexus ''/'')"

definition user_endpoint :: "request \<Rightarrow> bool" where
  "user_endpoint r = (prefix (nexus ''/'') (url r) \<and> \<not> gateway_admin r \<and> \<not> readiness_probe r)"

text \<open>
  A request that belongs to one of these classes and carries what the scenario sends to
  that class: the admin credentials to the gateway's admin endpoint, the user's to a
  user endpoint, no Authorization header to the simulator and to a readiness probe.
\<close>

definition authorized :: "request \<Rightarrow> bool" where
  "authorized r =
     ((gateway_admin r \<longrightarrow> authorization r = Some (''basic '' @ b64encode ''admin:x'')) \<and>
      (user_endpoint r \<longrightarrow> authorization r = Some (''basic '' @ b64encode ''person:y'')) \<and>
      (simulator_admin r \<or> readiness_probe r \<longrightarrow> authorization r = None) \<and>
      (gateway_admin r \<or> user_endpoint r \<or> simulator_admin r \<or> readiness_probe r))"

definition host_request :: request where
  "host_request =
     \<lparr>meth = ''POST'', url = sandbox ''/admin/ebics/host'', headers = [],
      req_json = Some (JObj [(''hostID'', JStr HOST_ID), (''ebicsVersion'', JStr EBICS_VERSION)])\<rparr>"

definition users_request :: request where
  "users_request =
     \<lparr>meth = ''POST'', url = nexus ''/users'', headers = admin_headers,
      req_json = Some (JObj [(''username'', JStr USERNAME), (''password'', JStr PASSWORD)])\<rparr>"

text \<open>
  The readiness probes, what startSandbox and startNexus log before their first probe
  when nothing fails, and what the exit hook of a child logs.
\<close>

definition sandbox_probe :: request where
  "sandbox_probe = \<lparr>meth = ''GET'', url = ''http://localhost:5000/'', headers = [], req_json = None\<rparr>"

definition nexus_probe :: request where
  "nexus_probe = \<lparr>meth = ''GET'', url = ''http://localhost:5001/'', headers = [], req_json = None\<rparr>"

definition sandbox_preamble :: "string \<Rightarrow> event list" where
  "sandbox_preamble db_full_path =
     [CheckCall [''rm'', ''-f'', db_full_path],
      CheckCall [''../gradlew'', ''-p'', ''..'', ''sandbox:assemble''],
      Bind 5000, Close 5000, Popen (sandbox_child db_full_path)]"

definition nexus_preamble :: "string \<Rightarrow> event list" where
  "nexus_preamble db_full_path =
     [CheckCall [''rm'', ''-f'', ''--'', db_full_path],
      CheckCall [''../gradlew'', ''-p'', ''..'', ''nexus:assemble''],
      CheckCall [''../gradlew'', ''-p'', ''..'', ''nexus:run'', ''--console=plain'',
                 ''--args=superuser admin --password x --db-name='' @ db_full_path],
      Bind 5001, Close 5001, Popen (nexus_child db_full_path)]"

definition kill_events :: "string \<Rightarrow> event list" where
  "kill_events nm =
     [Print (''terminating '' @ nm @ '' ...''), Terminate nm, Wait nm, Print ''terminated!'']"

text \<open>
  How often a child with a given name is launched, sent a terminate and waited for in a
  log; the events that are none of these are calm.
\<close>

fun is_launch :: "string \<Rightarrow> event \<Rightarrow> bool" where
  "is_launch nm (Popen c) = (child_name c = nm)"
| "is_launch nm _ = False"

definition launches :: "string \<Rightarrow> event list \<Rightarrow> nat" where
  "launches nm es = length (filter (is_launch nm) es)"

definition terminations :: "string \<Rightarrow> event list \<Rightarrow> nat" where
  "terminations nm es = count_list es (Terminate nm)"

definition waits :: "string \<Rightarrow> event list \<Rightarrow> nat" where
  "waits nm es = count_list es (Wait nm)"

fun calm :: "event \<Rightarrow> bool" where
  "calm (Popen c) = False"
| "calm (Terminate nm) = False"
| "calm (Wait nm) = False"
| "calm _ = True"

text \<open>
  A program that launches children only together with their exit hook: from any state
  it appends events and hooks, the hooks are a prefix of \<open>ns\<close> (all of \<open>ns\<close> when the
  program returns), every launch in the appended events has its hook, every child that
  runs afterwards ran before or has a hook, nothing is waited for, and the only
  terminate is the one the nexus poller sends before exit(77).
\<close>

definition supervised :: "string list \<Rightarrow> 'a prog \<Rightarrow> bool" where
  "supervised ns m =
     (\<forall>s. \<exists>es hs rs.
        fst (m s) = (logged s es)\<lparr>running := rs, atexit_hooks := atexit_hooks s @ hs\<rparr> \<and>
        set rs \<subseteq> set (running s) \<union> set hs \<and>
        prefix hs ns \<and> (\<not> isl (snd (m s)) \<longrightarrow> hs = ns) \<and>
        (\<forall>nm. launches nm es = count_list hs nm \<and> waits nm es = 0 \<and>
              (terminations nm es = 0 \<or>
               nm = ''nexus'' \<and> terminations nm es = 1 \<and> snd (m s) = Inl (SystemExit 77))))"

text \<open>What the process logs after the script has ended, while its exit hooks run.\<close>

definition exit_log :: "'a prog \<Rightarrow> state \<Rightarrow> event list" where
  "exit_log script s = drop (length (events (fst (script s)))) (events (fst (python script s)))"

text \<open>A world in which the sandbox answers every request and the nexus none.\<close>

definition nexus_unreachable :: "request list \<Rightarrow> request \<Rightarrow> reply" where
  "nexus_unreachable hist r =
     (if url r = ''http://localhost:5001/'' then Refused else Answer (ok_response (JObj [])))"

section \<open>Properties\<close>

subsection \<open>Basic facts\<close>

lemma logged_simps [simp]:
  "events (logged s es) = events s @ es"
  "busy_ports (logged s es) = busy_ports s"
  "denied_ports (logged s es) = denied_ports s"
  "running (logged s es) = running s"
  "atexit_hooks (logged s es) = atexit_hooks s"
  "logged (logged s es) es' = logged s (es @ es')"
  "logged s [] = s"
  by (simp_all add: logged_def)

lemma bind_error_logged [simp]: "bind_error port (logged s es) = bind_error port s"
  by (simp add: bind_error_def)

lemma checkPort_free:
  "bind_error port s = None \<Longrightarrow> checkPort port s = (logged s [Bind port, Close port], Inr ())"
  by (simp add: checkPort_def try_except_def bnd_def socket_bind_def socket_close_def logged_def)

lemma checkPort_fails:
  "bind_error port s = Some e \<Longrightarrow>
   checkPort port s =
     (logged s [Bind port, Print (''Port '' @ show_nat port @ '' is not available''),
                Print (exc_class (Raised e))],
      Inl (SystemExit 77))"
  by (simp add: checkPort_def try_except_def bnd_def socket_bind_def py_print_def emit_def
      py_exit_def raise_def logged_def)

subsection \<open>The JSON structural checkers\<close>

text \<open>
  C2. CheckJsonField.check is claimed to apply every nested check to the value of the
  field when the field is present. Run on the object \<open>{"a": {"b": 1}}\<close> with the check
  \<open>CheckJsonField("a", [CheckJsonField("b")])\<close>, the method raises AttributeError instead:
  the loop body reads \<open>self.nested_check\<close>, an attribute the instance does not have.
\<close>

theorem CheckJsonField_check_nested_raises:
  "CheckJsonField_check (CheckJsonField ''a'' [CheckJsonField ''b'' []])
     (JObj [(''a'', JObj [(''b'', JNum 1)])]) (fresh [] [])
   = (fresh [] [], Inl (Raised AttributeError))"
  by (simp add: CheckJsonField_check_def CheckJsonField_getattr_def bnd_def lift_exn_def
      ret_def raise_def)

subsection \<open>The port check\<close>



subsection \<open>Facts about single steps of the scenario\<close>

lemma requests_of_append [simp]: "requests_of (es @ es') = requests_of es @ requests_of es'"
  by (induction es rule: requests_of.induct) simp_all

lemma requests_of_prints [simp]: "requests_of (map Print out) = []"
  by (induction out) simp_all

lemma sent_logged: "sent (logged s es) = sent s @ requests_of es"
  by (simp add: sent_def)

lemma http_eq:
  "http env r s =
     (logged s [Http r],
      case server env (sent s) r of
        Answer resp \<Rightarrow> Inr resp | Refused \<Rightarrow> Inl (Raised ConnectionError) | Silent \<Rightarrow> Inl Blocked)"
  by (simp add: http_def logged_def split: reply.splits)

lemma assertResponse_ok: "ok resp \<Longrightarrow> assertResponse resp s = (s, Inr resp)"
  by (simp add: assertResponse_def ret_def)

lemma py_print_eq: "py_print t s = (logged s [Print t], Inr ())"
  by (simp add: py_print_def emit_def logged_def)

lemma fail_eq: "fail t s = (logged s [Print t], Inl (SystemExit 1))"
  by (simp add: fail_def bnd_def py_print_eq py_exit_def raise_def)

lemma print_all_eq: "print_all ts s = (logged s (map Print ts), Inr ())"
  by (induction ts arbitrary: s) (simp_all add: ret_def bnd_def py_print_eq)

lemma transaction_count_array:
  "json_body resp = Some (JObj kvs) \<Longrightarrow> map_of kvs ''transactions'' = Some (JArr txs) \<Longrightarrow>
   transaction_count resp s = (s, Inr (length txs))"
  by (simp add: transaction_count_def resp_json_def bnd_def ret_def lift_exn_def)

lemma transaction_count_absent:
  "json_body resp = Some (JObj kvs) \<Longrightarrow> map_of kvs ''transactions'' = None \<Longrightarrow>
   transaction_count resp s = (s, Inl (Raised TypeError))"
  by (simp add: transaction_count_def resp_json_def bnd_def ret_def raise_def lift_exn_def)

lemma post_fetch:
  "post env (nexus (''/bank-accounts/'' @ BANK_ACCOUNT_LABEL @ ''/fetch-transactions'')) (Some body)
     user_headers = http env (fetch_request body)"
  by (simp add: post_def fetch_request_def)

lemma get_transactions:
  "get env (nexus (''/bank-accounts/'' @ BANK_ACCOUNT_LABEL @ ''/transactions'')) user_headers
     = http env transactions_request"
  by (simp add: get_def transactions_request_def)

lemma from_step_4_count:
  assumes "server env (sent s) transactions_request = Answer resp" and "ok resp"
    and "transaction_count resp = (\<lambda>s. (s, r))"
  shows "from_step_4 env s =
     (case r of
        Inl a \<Rightarrow> (logged s [Http transactions_request], Inl a)
      | Inr n \<Rightarrow>
         if n \<noteq> 0
         then (logged s [Http transactions_request, Print ''unexpected number of transactions''],
               Inl (SystemExit 1))
         else from_step_5a env (logged s [Http transactions_request]))"
  unfolding from_step_4_def get_transactions
  by (simp add: bnd_def http_eq assms(1) assertResponse_ok [OF assms(2)] assms(3) fail_eq ret_def
      split: sum.splits)

subsection \<open>The transaction count before the payment\<close>

text \<open>
  C5. In the history step before the payment, once the fetch-transactions POST has been
  answered with success, the script GETs the transaction list. When the answer is a
  success whose JSON object holds a list under "transactions", the script goes on with
  the payment step if the list has length 0, and only then: for any other length it
  prints "unexpected number of transactions" and exits with code 1, and nothing else
  is done.
\<close>

theorem history_before_payment:
  assumes "server env (sent s) (fetch_request fetch_body) = Answer ack" and "ok ack"
    and "server env (sent s @ [fetch_request fetch_body]) transactions_request = Answer resp"
    and "ok resp" and "json_body resp = Some (JObj kvs)"
    and "map_of kvs ''transactions'' = Some (JArr txs)"
  shows "(length txs = 0 \<longrightarrow>
            from_step_3 env s
              = from_step_5a env (logged s [Http (fetch_request fetch_body), Http transactions_request])) \<and>
         (length txs \<noteq> 0 \<longrightarrow>
            from_step_3 env s
              = (logged s [Http (fetch_request fetch_body), Http transactions_request,
                           Print ''unexpected number of transactions''], Inl (SystemExit 1)) \<and>
            snd (python (from_step_3 env) s) = Some 1)"
proof -
  let ?s1 = "logged s [Http (fetch_request fetch_body)]"
  have sent1: "sent ?s1 = sent s @ [fetch_request fetch_body]"
    by (simp add: sent_logged)
  have step3: "from_step_3 env s = from_step_4 env ?s1"
    unfolding from_step_3_def post_fetch
    by (simp add: bnd_def http_eq assms(1) assertResponse_ok [OF assms(2)])
  have count: "transaction_count resp = (\<lambda>s. (s, Inr (length txs)))"
    by (rule ext) (rule transaction_count_array [OF assms(5,6)])
  have step4: "from_step_4 env ?s1 =
     (if length txs \<noteq> 0
      then (logged ?s1 [Http transactions_request, Print ''unexpected number of transactions''],
            Inl (SystemExit 1))
      else from_step_5a env (logged ?s1 [Http transactions_request]))"
    using from_step_4_count [of env ?s1 resp, OF _ assms(4) count]
    by (simp add: sent1 assms(3))
  show ?thesis
    by (simp add: step3 step4 python_def)
qed

theorem history_before_payment_witness:
  "from_step_3 (env_of (always (ok_response (JObj [(''transactions'', JArr [])])))) (fresh [] [])
     = from_step_5a (env_of (always (ok_response (JObj [(''transactions'', JArr [])]))))
         (logged (fresh [] []) [Http (fetch_request fetch_body), Http transactions_request]) \<and>
   from_step_3 (env_of (always (ok_response (JObj [(''transactions'', JArr [JNull])])))) (fresh [] [])
     = (logged (fresh [] []) [Http (fetch_request fetch_body), Http transactions_request,
                           Print ''unexpected number of transactions''], Inl (SystemExit 1))"
  using history_before_payment [of "env_of (always (ok_response (JObj [(''transactions'', JArr [])])))"
          "fresh [] []" "ok_response (JObj [(''transactions'', JArr [])])"
          "ok_response (JObj [(''transactions'', JArr [])])" "[(''transactions'', JArr [])]" "[]"]
        history_before_payment [of "env_of (always (ok_response (JObj [(''transactions'', JArr [JNull])])))"
          "fresh [] []" "ok_response (JObj [(''transactions'', JArr [JNull])])"
          "ok_response (JObj [(''transactions'', JArr [JNull])])" "[(''transactions'', JArr [JNull])]" "[JNull]"]
  by (simp add: env_of_def always_def ok_response_def)

subsection \<open>The transaction count after the payment\<close>

lemma json_check_ok:
  "c = (out, Inr x) \<Longrightarrow> json_check c s = (logged s (map Print out), Inr x)"
  by (simp add: json_check_def bnd_def print_all_eq ret_def)

lemma sent_prints [simp]: "sent (logged s (map Print out)) = sent s"
  by (simp add: sent_logged)

lemma from_step_6_count:
  assumes "checkFetchTransactions env fetch_body = (out, Inr body)"
    and "server env (sent s) (fetch_request body) = Answer ack" and "ok ack"
    and "server env (sent s @ [fetch_request body]) transactions_request = Answer resp"
    and "ok resp" and "transaction_count resp = (\<lambda>s. (s, r))"
  shows "from_step_6 env s =
     (case r of
        Inl a \<Rightarrow> (logged s (map Print out @ [Http (fetch_request body), Http transactions_request]), Inl a)
      | Inr n \<Rightarrow>
         if n \<noteq> 1
         then (logged s (map Print out @ [Http (fetch_request body), Http transactions_request,
                 Print ''Unexpected number of transactions; should be 1'']), Inl (SystemExit 1))
         else (logged s (map Print out @ [Http (fetch_request body), Http transactions_request,
                 Print ''Test passed!'']), Inr ()))"
proof -
  have a: "http env (fetch_request body) (logged s (map Print out))
             = (logged s (map Print out @ [Http (fetch_request body)]), Inr ack)"
    by (simp add: http_eq assms(2))
  have b: "http env transactions_request (logged s (map Print out @ [Http (fetch_request body)]))
             = (logged s (map Print out @ [Http (fetch_request body), Http transactions_request]), Inr resp)"
    by (simp add: http_eq sent_logged assms(4))
  show ?thesis
    unfolding from_step_6_def post_fetch get_transactions
    by (simp add: bnd_def json_check_ok [OF assms(1)] a b assertResponse_ok [OF assms(3)]
        assertResponse_ok [OF assms(5)] assms(6) fail_eq ret_def py_print_eq split: sum.splits)
qed

text \<open>
  C6. In the history step after the payment the script fetches again and GETs the
  transaction list. When the answer is a success whose JSON object holds a list under
  "transactions": if the list has length 1 the script prints "Test passed!" and the
  process ends with exit code 0; for any other length it prints a diagnostic and exits
  with code 1.
\<close>

theorem history_after_payment:
  assumes "checkFetchTransactions env fetch_body = (out, Inr body)"
    and "server env (sent s) (fetch_request body) = Answer ack" and "ok ack"
    and "server env (sent s @ [fetch_request body]) transactions_request = Answer resp"
    and "ok resp" and "json_body resp = Some (JObj kvs)"
    and "map_of kvs ''transactions'' = Some (JArr txs)"
  shows "(length txs = 1 \<longrightarrow>
            from_step_6 env s
              = (logged s (map Print out @ [Http (fetch_request body), Http transactions_request,
                                            Print ''Test passed!'']), Inr ()) \<and>
            snd (python (from_step_6 env) s) = Some 0) \<and>
         (length txs \<noteq> 1 \<longrightarrow>
            from_step_6 env s
              = (logged s (map Print out @ [Http (fetch_request body), Http transactions_request,
                     Print ''Unexpected number of transactions; should be 1'']), Inl (SystemExit 1)) \<and>
            snd (python (from_step_6 env) s) = Some 1)"
proof -
  have "transaction_count resp = (\<lambda>s. (s, Inr (length txs)))"
    by (rule ext) (rule transaction_count_array [OF assms(6,7)])
  from from_step_6_count [OF assms(1-5) this] show ?thesis
    by (simp add: python_def)
qed

theorem history_after_payment_witness:
  "from_step_6 (env_of (always (ok_response (JObj [(''transactions'', JArr [JNull])])))) (fresh [] [])
     = (logged (fresh [] []) [Http (fetch_request fetch_body), Http transactions_request,
                           Print ''Test passed!''], Inr ()) \<and>
   snd (python (from_step_6 (env_of (always (ok_response (JObj [(''transactions'', JArr [JNull])]))))) (fresh [] [])) = Some 0 \<and>
   snd (python (from_step_6 (env_of (always (ok_response (JObj [(''transactions'', JArr [])]))))) (fresh [] [])) = Some 1"
  using history_after_payment [of "env_of (always (ok_response (JObj [(''transactions'', JArr [JNull])])))"
          "[]" fetch_body "fresh [] []" "ok_response (JObj [(''transactions'', JArr [JNull])])"
          "ok_response (JObj [(''transactions'', JArr [JNull])])" "[(''transactions'', JArr [JNull])]" "[JNull]"]
        history_after_payment [of "env_of (always (ok_response (JObj [(''transactions'', JArr [])])))"
          "[]" fetch_body "fresh [] []" "ok_response (JObj [(''transactions'', JArr [])])"
          "ok_response (JObj [(''transactions'', JArr [])])" "[(''transactions'', JArr [])]" "[]"]
  by (simp add: env_of_def always_def ok_response_def)

subsection \<open>A response without the transactions field\<close>

text \<open>
  C10. At both places where the transactions are counted, a successful response whose
  JSON object has no "transactions" field makes \<open>get\<close> answer None, and \<open>len\<close> of
  None raises a TypeError that nothing catches: the run ends with a traceback and exit
  status 1, and the diagnostic about the number of transactions is not printed.
\<close>

theorem transactions_field_absent:
  "(server env (sent s) transactions_request = Answer resp \<and> ok resp \<and>
    json_body resp = Some (JObj kvs) \<and> map_of kvs ''transactions'' = None \<longrightarrow>
      from_step_4 env s = (logged s [Http transactions_request], Inl (Raised TypeError)) \<and>
      python (from_step_4 env) s
        = (fst (run_hooks (rev (atexit_hooks s))
                  (logged s [Http transactions_request, Traceback TypeError])), Some 1)) \<and>
   (checkFetchTransactions env fetch_body = (out, Inr body) \<and>
    server env (sent s') (fetch_request body) = Answer ack \<and> ok ack \<and>
    server env (sent s' @ [fetch_request body]) transactions_request = Answer resp' \<and> ok resp' \<and>
    json_body resp' = Some (JObj kvs') \<and> map_of kvs' ''transactions'' = None \<longrightarrow>
      from_step_6 env s'
        = (logged s' (map Print out @ [Http (fetch_request body), Http transactions_request]),
           Inl (Raised TypeError)) \<and>
      python (from_step_6 env) s'
        = (fst (run_hooks (rev (atexit_hooks s'))
                  (logged s' (map Print out @ [Http (fetch_request body), Http transactions_request,
                                               Traceback TypeError]))), Some 1))"
proof (intro conjI impI)
  assume h: "server env (sent s) transactions_request = Answer resp \<and> ok resp \<and>
    json_body resp = Some (JObj kvs) \<and> map_of kvs ''transactions'' = None"
  then have jb: "json_body resp = Some (JObj kvs)" and ab: "map_of kvs ''transactions'' = None"
    by simp_all
  have "transaction_count resp = (\<lambda>s. (s, Inl (Raised TypeError)))"
    by (rule ext) (rule transaction_count_absent [OF jb ab])
  with h have r: "from_step_4 env s = (logged s [Http transactions_request], Inl (Raised TypeError))"
    by (simp add: from_step_4_count)
  then show "from_step_4 env s = (logged s [Http transactions_request], Inl (Raised TypeError))" .
  from r show "python (from_step_4 env) s
        = (fst (run_hooks (rev (atexit_hooks s))
                  (logged s [Http transactions_request, Traceback TypeError])), Some 1)"
    by (simp add: python_def traceback_def bnd_def emit_def logged_def)
next
  assume h: "checkFetchTransactions env fetch_body = (out, Inr body) \<and>
    server env (sent s') (fetch_request body) = Answer ack \<and> ok ack \<and>
    server env (sent s' @ [fetch_request body]) transactions_request = Answer resp' \<and> ok resp' \<and>
    json_body resp' = Some (JObj kvs') \<and> map_of kvs' ''transactions'' = None"
  then have jb: "json_body resp' = Some (JObj kvs')" and ab: "map_of kvs' ''transactions'' = None"
    by simp_all
  have "transaction_count resp' = (\<lambda>s. (s, Inl (Raised TypeError)))"
    by (rule ext) (rule transaction_count_absent [OF jb ab])
  with h have r: "from_step_6 env s'
        = (logged s' (map Print out @ [Http (fetch_request body), Http transactions_request]),
           Inl (Raised TypeError))"
    by (simp add: from_step_6_count [where ack = ack and resp = resp'])
  then show "from_step_6 env s'
        = (logged s' (map Print out @ [Http (fetch_request body), Http transactions_request]),
           Inl (Raised TypeError))" .
  from r show "python (from_step_6 env) s'
        = (fst (run_hooks (rev (atexit_hooks s'))
                  (logged s' (map Print out @ [Http (fetch_request body), Http transactions_request,
                                               Traceback TypeError]))), Some 1)"
    by (simp add: python_def traceback_def bnd_def emit_def logged_def)
qed

theorem transactions_field_absent_witness:
  "python (from_step_4 (env_of (always (ok_response (JObj []))))) (fresh [] [])
     = (logged (fresh [] []) [Http transactions_request, Traceback TypeError], Some 1) \<and>
   python (from_step_6 (env_of (always (ok_response (JObj []))))) (fresh [] [])
     = (logged (fresh [] []) [Http (fetch_request fetch_body), Http transactions_request,
                           Traceback TypeError], Some 1)"
  using transactions_field_absent [of "env_of (always (ok_response (JObj [])))" "fresh [] []"
          "ok_response (JObj [])" "[]" "[]" fetch_body "fresh [] []" "ok_response (JObj [])"
          "ok_response (JObj [])" "[]"]
  by (simp add: env_of_def always_def ok_response_def fresh_def ret_def)

subsection \<open>The identifier of the prepared payment\<close>

lemma get_payment:
  "get env (nexus (''/bank-accounts/'' @ BANK_ACCOUNT_LABEL @ ''/payment-initiations/'' @ u))
     user_headers = http env (payment_get_request u)"
  by (simp add: get_def payment_get_request_def)

lemma post_submit:
  "post env (nexus (''/bank-accounts/'' @ BANK_ACCOUNT_LABEL @ ''/payment-initiations/'' @ u @ ''/submit''))
     (Some (JObj [])) user_headers = http env (submit_request u)"
  by (simp add: post_def submit_request_def)

lemma post_payment:
  "post env (nexus (''/bank-accounts/'' @ BANK_ACCOUNT_LABEL @ ''/payment-initiations''))
     (Some payment_body) user_headers = http env payment_request"
  by (simp add: post_def payment_request_def)

text \<open>
  C3, as amended. After the payment-initiation POST has been answered with success and a
  JSON object, the script compares the value under "uuid" with None and nothing else:
  when the key is absent or its value is null, the script prints "Payment UUID not
  received" and exits with code 1 before any further request; for any other value, the
  empty string included, it goes on to read the prepared payment back.
\<close>

theorem payment_uuid_checked:
  assumes "server env (sent s) payment_request = Answer resp" and "ok resp"
    and "json_body resp = Some (JObj kvs)"
  shows "(map_of kvs ''uuid'' = None \<or> map_of kvs ''uuid'' = Some JNull \<longrightarrow>
            from_step_5a env s
              = (logged s [Http payment_request, Print ''Payment UUID not received''],
                 Inl (SystemExit 1))) \<and>
         (\<forall>v. map_of kvs ''uuid'' = Some v \<and> v \<noteq> JNull \<longrightarrow>
            from_step_5a env s = from_get_payment env v (logged s [Http payment_request]))"
  unfolding from_step_5a_def post_payment
  by (auto simp add: bnd_def http_eq assms(1) assertResponse_ok [OF assms(2)] resp_json_def
      assms(3) lift_exn_def fail_eq ret_def)

theorem payment_uuid_checked_witness:
  "from_step_5a (env_of (always (ok_response (JObj [])))) (fresh [] [])
     = (logged (fresh [] []) [Http payment_request, Print ''Payment UUID not received''],
        Inl (SystemExit 1)) \<and>
   from_step_5a (env_of (always (ok_response (JObj [(''uuid'', JStr ''u1'')])))) (fresh [] [])
     = from_get_payment (env_of (always (ok_response (JObj [(''uuid'', JStr ''u1'')])))) (JStr ''u1'')
         (logged (fresh [] []) [Http payment_request])"
  using payment_uuid_checked [of "env_of (always (ok_response (JObj [])))" "fresh [] []"
          "ok_response (JObj [])" "[]"]
        payment_uuid_checked [of "env_of (always (ok_response (JObj [(''uuid'', JStr ''u1'')])))" "fresh [] []"
          "ok_response (JObj [(''uuid'', JStr ''u1'')])" "[(''uuid'', JStr ''u1'')]"]
  by (simp add: env_of_def always_def ok_response_def)

text \<open>
  The claim as written also asks for the run to end when the identifier is empty. With a
  server that answers every request with \<open>{"uuid": "", "transactions": [null]}\<close> the
  script sends the submission request for the empty identifier and runs to its end.
\<close>

theorem empty_uuid_accepted:
  "from_step_5a (env_of (always empty_uuid_reply)) (fresh [] [])
     = (logged (fresh [] [])
          [Http payment_request, Http (payment_get_request []), Http (submit_request []),
           Http (fetch_request fetch_body), Http transactions_request, Print ''Test passed!''],
        Inr ())"
  unfolding from_step_5a_def from_get_payment_def from_step_5b_def from_step_6_def
    post_payment get_payment post_submit post_fetch get_transactions
  by (simp add: bnd_def http_eq env_of_def always_def empty_uuid_reply_def ok_response_def
      assertResponse_def ret_def resp_json_def lift_exn_def fmt_def json_check_def
      transaction_count_def py_print_eq)



subsection \<open>Programs that only log events\<close>

lemma emitsD: "emits P m \<Longrightarrow> \<exists>es. fst (m s) = logged s es \<and> list_all P es"
  by (simp add: emits_def)

lemma emits_ret: "emits P (ret x)"
  unfolding emits_def ret_def by (intro allI exI [of _ "[]"]) simp

lemma emits_raise: "emits P (raise a)"
  unfolding emits_def raise_def by (intro allI exI [of _ "[]"]) simp

lemma emits_py_exit: "emits P (py_exit n)"
  by (simp add: py_exit_def emits_raise)

lemma emits_emit: "P e \<Longrightarrow> emits P (emit e)"
  unfolding emits_def emit_def by (intro allI exI [of _ "[e]"]) (simp add: logged_def)

lemma emits_bnd:
  assumes "emits P m" and "\<And>x. emits P (f x)"
  shows "emits P (bnd m f)"
  unfolding emits_def
proof
  fix s
  obtain es where m: "fst (m s) = logged s es" "list_all P es"
    using emitsD [OF assms(1)] by blast
  show "\<exists>es. fst (bnd m f s) = logged s es \<and> list_all P es"
  proof (cases "snd (m s)")
    case (Inl a)
    then have "fst (bnd m f s) = fst (m s)"
      by (cases "m s") (simp add: bnd_def)
    with m show ?thesis by (intro exI [of _ es]) simp
  next
    case (Inr x)
    obtain es' where f: "fst (f x (fst (m s))) = logged (fst (m s)) es'" "list_all P es'"
      using emitsD [OF assms(2)] by blast
    from Inr have "fst (bnd m f s) = fst (f x (fst (m s)))"
      by (cases "m s") (simp add: bnd_def)
    with m f show ?thesis by (intro exI [of _ "es @ es'"]) simp
  qed
qed

lemma emits_if: "(c \<Longrightarrow> emits P m) \<Longrightarrow> (\<not> c \<Longrightarrow> emits P n) \<Longrightarrow> emits P (if c then m else n)"
  by simp

lemma emits_lift_exn: "emits P (lift_exn r)"
  by (cases r) (simp_all add: lift_exn_def emits_ret emits_raise)

lemma emits_resp_json: "emits P (resp_json r)"
  by (cases "json_body r") (simp_all add: resp_json_def emits_ret emits_raise)

lemma emits_print: "P (Print t) \<Longrightarrow> emits P (py_print t)"
  by (simp add: py_print_def emits_emit)

lemma emits_print_all: "(\<And>t. P (Print t)) \<Longrightarrow> emits P (print_all ts)"
  by (induction ts) (auto intro: emits_ret emits_bnd emits_print)

lemma emits_json_check: "(\<And>t. P (Print t)) \<Longrightarrow> emits P (json_check c)"
  unfolding json_check_def
  by (intro emits_bnd emits_print_all) (auto split: sum.splits intro: emits_ret emits_raise)

lemma emits_http: "P (Http r) \<Longrightarrow> emits P (http env r)"
  unfolding emits_def http_def
  by (intro allI exI [of _ "[Http r]"]) (simp add: logged_def split: reply.splits)

lemma emits_fail: "P (Print t) \<Longrightarrow> emits P (fail t)"
  unfolding fail_def by (intro emits_bnd emits_print emits_py_exit)

lemma emits_assertResponse: "(\<And>t. P (Print t)) \<Longrightarrow> emits P (assertResponse r)"
  unfolding assertResponse_def by (intro emits_if emits_bnd emits_print emits_ret emits_py_exit)

lemma emits_transaction_count: "emits P (transaction_count r)"
  unfolding transaction_count_def by (intro emits_bnd emits_resp_json emits_lift_exn)


subsection \<open>The readiness polling loops\<close>

lemma probe_eq:
  "try_except (bnd (get env u []) (\<lambda>_. ret True)) (\<lambda>_. ret False) s
     = (logged s [Http \<lparr>meth = ''GET'', url = u, headers = [], req_json = None\<rparr>],
        case server env (sent s) \<lparr>meth = ''GET'', url = u, headers = [], req_json = None\<rparr> of
          Answer resp \<Rightarrow> Inr True | Refused \<Rightarrow> Inr False | Silent \<Rightarrow> Inl Blocked)"
  by (simp add: try_except_def bnd_def get_def http_eq ret_def split: reply.splits)

lemma sandbox_timed_out_eq: "sandbox_timed_out s = (s, Inl (Raised NameError))"
  by (simp add: sandbox_timed_out_def bnd_def util_global_def util_globals_def raise_def)

lemma nexus_timed_out_eq:
  "nexus_timed_out s
     = ((logged s [Terminate ''nexus'', Print ''Nexus timed out''])
          \<lparr>running := removeAll ''nexus'' (running s)\<rparr>,
        Inl (SystemExit 77))"
  by (simp add: nexus_timed_out_def bnd_def terminate_def py_print_def emit_def py_exit_def
      raise_def logged_def)

lemma sleep_eq: "sleep n s = (logged s [Sleep n], Inr ())"
  by (simp add: sleep_def emit_def logged_def)

lemma sandbox_poll_Cons:
  "sandbox_poll env (i # rest) s =
     (case server env (sent s) sandbox_probe of
        Answer resp \<Rightarrow> (logged s [Http sandbox_probe], Inr ())
      | Silent \<Rightarrow> (logged s [Http sandbox_probe], Inl Blocked)
      | Refused \<Rightarrow>
          if i = 9 then (logged s [Http sandbox_probe], Inl (Raised NameError))
          else sandbox_poll env rest (logged s [Http sandbox_probe, Sleep 2]))"
  by (simp add: bnd_def probe_eq sandbox_probe_def sandbox_timed_out_eq sleep_eq ret_def
      split: reply.splits)

lemma nexus_poll_Cons:
  "nexus_poll env (i # rest) s =
     (case server env (sent s) nexus_probe of
        Answer resp \<Rightarrow> (logged s [Http nexus_probe], Inr ())
      | Silent \<Rightarrow> (logged s [Http nexus_probe], Inl Blocked)
      | Refused \<Rightarrow>
          if i = 79
          then ((logged s [Http nexus_probe, Terminate ''nexus'', Print ''Nexus timed out''])
                  \<lparr>running := removeAll ''nexus'' (running s)\<rparr>,
                Inl (SystemExit 77))
          else nexus_poll env rest (logged s [Http nexus_probe, Sleep 1]))"
  by (simp add: bnd_def probe_eq nexus_probe_def nexus_timed_out_eq sleep_eq ret_def logged_def
      split: reply.splits)

declare sandbox_poll.simps(2) [simp del] nexus_poll.simps(2) [simp del]

lemma first_answer:
  fixes f :: "nat \<Rightarrow> bool"
  shows "\<exists>k\<le>n. (\<forall>j<k. f j) \<and> (f k \<longrightarrow> k = n)"
proof (induction n)
  case 0
  show ?case by simp
next
  case (Suc n)
  then obtain k where k: "k \<le> n" "\<forall>j<k. f j" "f k \<longrightarrow> k = n" by blast
  show ?case
  proof (cases "f k")
    case False
    with k show ?thesis by (intro exI [of _ k]) simp
  next
    case True
    with k have "\<forall>j<Suc n. f j" by (simp add: less_Suc_eq)
    then show ?thesis by (intro exI [of _ "Suc n"]) simp
  qed
qed

lemma sent_shift:
  "sent (logged s [Http r, Sleep d]) @ replicate j r = sent s @ replicate (Suc j) r"
  by (simp add: sent_logged)

lemma sandbox_poll_run:
  assumes "i + k \<le> 9"
    and "\<forall>j<k. server env (sent s @ replicate j sandbox_probe) sandbox_probe = Refused"
    and "server env (sent s @ replicate k sandbox_probe) sandbox_probe = Refused \<longrightarrow> i + k = 9"
  shows "sandbox_poll env [i..<10] s
         = (logged s (concat (replicate k [Http sandbox_probe, Sleep 2]) @ [Http sandbox_probe]),
            case server env (sent s @ replicate k sandbox_probe) sandbox_probe of
              Answer resp \<Rightarrow> Inr () | Refused \<Rightarrow> Inl (Raised NameError) | Silent \<Rightarrow> Inl Blocked)"
  using assms
proof (induction k arbitrary: i s)
  case 0
  then have "[i..<10] = i # [Suc i..<10]" by (simp add: upt_conv_Cons)
  with 0 show ?case by (simp add: sandbox_poll_Cons split: reply.splits)
next
  case (Suc k)
  let ?s = "logged s [Http sandbox_probe, Sleep 2]"
  from Suc.prems have l: "[i..<10] = i # [Suc i..<10]" and i: "i \<noteq> 9"
    by (simp_all add: upt_conv_Cons)
  from Suc.prems(2) have none: "server env (sent s) sandbox_probe = Refused"
    by (metis append_Nil2 replicate_0 zero_less_Suc)
  have a: "Suc i + k \<le> 9" using Suc.prems(1) by simp
  have b: "\<forall>j<k. server env (sent ?s @ replicate j sandbox_probe) sandbox_probe = Refused"
    using Suc.prems(2) unfolding sent_shift by (simp del: replicate_Suc)
  have c: "server env (sent ?s @ replicate k sandbox_probe) sandbox_probe = Refused \<longrightarrow> Suc i + k = 9"
    using Suc.prems(3) unfolding sent_shift by simp
  have "sandbox_poll env [i..<10] s = sandbox_poll env [Suc i..<10] ?s"
    by (simp add: l sandbox_poll_Cons none i)
  also note Suc.IH [OF a b c]
  finally show ?case
    unfolding sent_shift by (simp del: replicate_Suc) simp
qed

lemma nexus_poll_run:
  assumes "i + k \<le> 79"
    and "\<forall>j<k. server env (sent s @ replicate j nexus_probe) nexus_probe = Refused"
    and "server env (sent s @ replicate k nexus_probe) nexus_probe = Refused \<longrightarrow> i + k = 79"
  shows "nexus_poll env [i..<80] s
         = (case server env (sent s @ replicate k nexus_probe) nexus_probe of
              Answer resp \<Rightarrow>
                (logged s (concat (replicate k [Http nexus_probe, Sleep 1]) @ [Http nexus_probe]),
                 Inr ())
            | Silent \<Rightarrow>
                (logged s (concat (replicate k [Http nexus_probe, Sleep 1]) @ [Http nexus_probe]),
                 Inl Blocked)
            | Refused \<Rightarrow>
                ((logged s (concat (replicate k [Http nexus_probe, Sleep 1])
                            @ [Http nexus_probe, Terminate ''nexus'', Print ''Nexus timed out'']))
                   \<lparr>running := removeAll ''nexus'' (running s)\<rparr>,
                 Inl (SystemExit 77)))"
  using assms
proof (induction k arbitrary: i s)
  case 0
  then have "[i..<80] = i # [Suc i..<80]" by (simp add: upt_conv_Cons)
  with 0 show ?case by (simp add: nexus_poll_Cons split: reply.splits)
next
  case (Suc k)
  let ?s = "logged s [Http nexus_probe, Sleep 1]"
  from Suc.prems have l: "[i..<80] = i # [Suc i..<80]" and i: "i \<noteq> 79"
    by (simp_all add: upt_conv_Cons)
  from Suc.prems(2) have none: "server env (sent s) nexus_probe = Refused"
    by (metis append_Nil2 replicate_0 zero_less_Suc)
  have a: "Suc i + k \<le> 79" using Suc.prems(1) by simp
  have b: "\<forall>j<k. server env (sent ?s @ replicate j nexus_probe) nexus_probe = Refused"
    using Suc.prems(2) unfolding sent_shift by (simp del: replicate_Suc)
  have c: "server env (sent ?s @ replicate k nexus_probe) nexus_probe = Refused \<longrightarrow> Suc i + k = 79"
    using Suc.prems(3) unfolding sent_shift by simp
  have "nexus_poll env [i..<80] s = nexus_poll env [Suc i..<80] ?s"
    by (simp add: l nexus_poll_Cons none i)
  also note Suc.IH [OF a b c]
  finally show ?case
    unfolding sent_shift by (simp add: logged_def split: reply.splits)
qed

lemma check_call_eq:
  "check_call env cmd s =
     (logged s [CheckCall cmd], if check_call_ok env cmd then Inr () else Inl (Raised CalledProcessError))"
  by (simp add: check_call_def bnd_def emit_def ret_def raise_def logged_def)

text \<open>What startSandbox and startNexus log before their first probe when nothing fails.\<close>

lemma sent_launched [simp]:
  "sent ((logged s [CheckCall a, CheckCall b, Bind p, Close p, Popen c])
           \<lparr>running := rs, atexit_hooks := hs\<rparr>) = sent s"
  "sent ((logged s [CheckCall a, CheckCall b, CheckCall d, Bind p, Close p, Popen c])
           \<lparr>running := rs, atexit_hooks := hs\<rparr>) = sent s"
  by (simp_all add: sent_def)

lemma child_names [simp]:
  "child_name (sandbox_child p) = ''sandbox''" "child_name (nexus_child p) = ''nexus''"
  by (simp_all add: sandbox_child_def nexus_child_def)

lemma launch_order:
  "s\<lparr>running := rs, events := es, atexit_hooks := hs\<rparr>
     = s\<lparr>events := es, running := rs, atexit_hooks := hs\<rparr>"
  by simp

lemma startSandbox_launched:
  assumes "check_call_ok env [''rm'', ''-f'', db_path env dbname]"
    and "check_call_ok env [''../gradlew'', ''-p'', ''..'', ''sandbox:assemble'']"
    and "bind_error 5000 s = None"
  shows "startSandbox env dbname s
     = sandbox_poll env [0..<10]
         ((logged s (sandbox_preamble (db_path env dbname)))
            \<lparr>running := running s @ [''sandbox''], atexit_hooks := atexit_hooks s @ [''sandbox'']\<rparr>)"
  by (simp add: startSandbox_def Let_def bnd_def check_call_eq assms checkPort_free
      popen_def atexit_register_def sandbox_preamble_def)
     (simp add: logged_def launch_order)

lemma launch_after_three_calls:
  assumes "check_call_ok env a" and "check_call_ok env b" and "check_call_ok env c"
    and "bind_error p s = None"
  shows "bnd (check_call env a) (\<lambda>_.
         bnd (check_call env b) (\<lambda>_.
         bnd (check_call env c) (\<lambda>_.
         bnd (checkPort p) (\<lambda>_.
         bnd (popen ch) (\<lambda>_.
         bnd (atexit_register nm) (\<lambda>_.
         bnd poll (\<lambda>_. ret ch))))))) s
     = (case poll ((logged s [CheckCall a, CheckCall b, CheckCall c, Bind p, Close p, Popen ch])
                  \<lparr>running := running s @ [child_name ch],
                   atexit_hooks := atexit_hooks s @ [nm]\<rparr>) of
          (s', Inl x) \<Rightarrow> (s', Inl x)
        | (s', Inr x) \<Rightarrow> (s', Inr ch))"
  by (simp add: bnd_def check_call_eq assms checkPort_free popen_def atexit_register_def ret_def)
     (simp add: logged_def launch_order)

lemma startNexus_launched:
  assumes "check_call_ok env [''rm'', ''-f'', ''--'', db_path env dbname]"
    and "check_call_ok env [''../gradlew'', ''-p'', ''..'', ''nexus:assemble'']"
    and "check_call_ok env [''../gradlew'', ''-p'', ''..'', ''nexus:run'', ''--console=plain'',
           ''--args=superuser admin --password x --db-name='' @ db_path env dbname]"
    and "bind_error 5001 s = None"
  shows "startNexus env dbname s
     = (case nexus_poll env [0..<80]
               ((logged s (nexus_preamble (db_path env dbname)))
                  \<lparr>running := running s @ [''nexus''],
                   atexit_hooks := atexit_hooks s @ [''nexus'']\<rparr>) of
          (s', Inl a) \<Rightarrow> (s', Inl a)
        | (s', Inr x) \<Rightarrow> (s', Inr (nexus_child (db_path env dbname))))"
  unfolding startNexus_def Let_def nexus_preamble_def
  by (rule launch_after_three_calls
        [OF assms, where ch = "nexus_child (db_path env dbname)", unfolded child_names])

lemma startSandbox_run:
  assumes "check_call_ok env [''rm'', ''-f'', db_path env dbname]"
    and "check_call_ok env [''../gradlew'', ''-p'', ''..'', ''sandbox:assemble'']"
    and "bind_error 5000 s = None"
    and "k \<le> 9"
    and "\<forall>j<k. server env (sent s @ replicate j sandbox_probe) sandbox_probe = Refused"
    and "server env (sent s @ replicate k sandbox_probe) sandbox_probe = Refused \<longrightarrow> k = 9"
  shows "startSandbox env dbname s
     = ((logged s (sandbox_preamble (db_path env dbname)
                   @ concat (replicate k [Http sandbox_probe, Sleep 2]) @ [Http sandbox_probe]))
          \<lparr>running := running s @ [''sandbox''], atexit_hooks := atexit_hooks s @ [''sandbox'']\<rparr>,
        case server env (sent s @ replicate k sandbox_probe) sandbox_probe of
          Answer resp \<Rightarrow> Inr () | Refused \<Rightarrow> Inl (Raised NameError) | Silent \<Rightarrow> Inl Blocked)"
  unfolding startSandbox_launched [OF assms(1-3)] sandbox_preamble_def
  using assms(4-6)
  by (subst sandbox_poll_run [of 0 k]) (simp_all add: logged_def sent_def)

lemma startNexus_run:
  assumes "check_call_ok env [''rm'', ''-f'', ''--'', db_path env dbname]"
    and "check_call_ok env [''../gradlew'', ''-p'', ''..'', ''nexus:assemble'']"
    and "check_call_ok env [''../gradlew'', ''-p'', ''..'', ''nexus:run'', ''--console=plain'',
           ''--args=superuser admin --password x --db-name='' @ db_path env dbname]"
    and "bind_error 5001 s = None"
    and "k \<le> 79"
    and "\<forall>j<k. server env (sent s @ replicate j nexus_probe) nexus_probe = Refused"
    and "server env (sent s @ replicate k nexus_probe) nexus_probe = Refused \<longrightarrow> k = 79"
  shows "startNexus env dbname s
     = (case server env (sent s @ replicate k nexus_probe) nexus_probe of
          Answer resp \<Rightarrow>
            ((logged s (nexus_preamble (db_path env dbname)
                        @ concat (replicate k [Http nexus_probe, Sleep 1]) @ [Http nexus_probe]))
               \<lparr>running := running s @ [''nexus''], atexit_hooks := atexit_hooks s @ [''nexus'']\<rparr>,
             Inr (nexus_child (db_path env dbname)))
        | Silent \<Rightarrow>
            ((logged s (nexus_preamble (db_path env dbname)
                        @ concat (replicate k [Http nexus_probe, Sleep 1]) @ [Http nexus_probe]))
               \<lparr>running := running s @ [''nexus''], atexit_hooks := atexit_hooks s @ [''nexus'']\<rparr>,
             Inl Blocked)
        | Refused \<Rightarrow>
            ((logged s (nexus_preamble (db_path env dbname)
                        @ concat (replicate k [Http nexus_probe, Sleep 1])
                        @ [Http nexus_probe, Terminate ''nexus'', Print ''Nexus timed out'']))
               \<lparr>running := removeAll ''nexus'' (running s),
                atexit_hooks := atexit_hooks s @ [''nexus'']\<rparr>,
             Inl (SystemExit 77)))"
  unfolding startNexus_launched [OF assms(1-4)] nexus_preamble_def
  using assms(5-7)
  by (subst nexus_poll_run [of 0 k]) (simp_all add: logged_def sent_def split: reply.splits)



text \<open>
  C8, as amended. When the build commands succeed and the port is free, startSandbox
  makes at most ten probes and startNexus at most eighty; after each refused probe but
  the last the loop sleeps 2 seconds (sandbox) or 1 second (nexus). What happens then
  is decided by the first probe that is not refused, or by the last one: if it is
  answered the function returns at once; if it is refused too, the process ends (the
  nexus child is sent terminate and the exit code is 77; the sandbox branch ends in an
  uncaught NameError); if it never returns, neither does the function. So the loops end
  only in so far as every probe comes back: \<open>get\<close> is called without a timeout.
\<close>

theorem polling_is_bounded:
  assumes "check_call_ok env [''rm'', ''-f'', db_path env dbname]"
    and "check_call_ok env [''../gradlew'', ''-p'', ''..'', ''sandbox:assemble'']"
    and "bind_error 5000 s = None"
    and "check_call_ok env [''rm'', ''-f'', ''--'', db_path env dbname']"
    and "check_call_ok env [''../gradlew'', ''-p'', ''..'', ''nexus:assemble'']"
    and "check_call_ok env [''../gradlew'', ''-p'', ''..'', ''nexus:run'', ''--console=plain'',
           ''--args=superuser admin --password x --db-name='' @ db_path env dbname']"
    and "bind_error 5001 s' = None"
  shows "(\<exists>k<10. (\<forall>j<k. server env (sent s @ replicate j sandbox_probe) sandbox_probe = Refused) \<and>
       (server env (sent s @ replicate k sandbox_probe) sandbox_probe = Refused \<longrightarrow> k = 9) \<and>
       startSandbox env dbname s
         = ((logged s (sandbox_preamble (db_path env dbname)
                       @ concat (replicate k [Http sandbox_probe, Sleep 2]) @ [Http sandbox_probe]))
              \<lparr>running := running s @ [''sandbox''], atexit_hooks := atexit_hooks s @ [''sandbox'']\<rparr>,
            case server env (sent s @ replicate k sandbox_probe) sandbox_probe of
              Answer resp \<Rightarrow> Inr ()
            | Refused \<Rightarrow> Inl (Raised NameError)
            | Silent \<Rightarrow> Inl Blocked)) \<and>
   (\<exists>k<80. (\<forall>j<k. server env (sent s' @ replicate j nexus_probe) nexus_probe = Refused) \<and>
       (server env (sent s' @ replicate k nexus_probe) nexus_probe = Refused \<longrightarrow> k = 79) \<and>
       startNexus env dbname' s'
         = (case server env (sent s' @ replicate k nexus_probe) nexus_probe of
              Answer resp \<Rightarrow>
                ((logged s' (nexus_preamble (db_path env dbname')
                             @ concat (replicate k [Http nexus_probe, Sleep 1]) @ [Http nexus_probe]))
                   \<lparr>running := running s' @ [''nexus''], atexit_hooks := atexit_hooks s' @ [''nexus'']\<rparr>,
                 Inr (nexus_child (db_path env dbname')))
            | Silent \<Rightarrow>
                ((logged s' (nexus_preamble (db_path env dbname')
                             @ concat (replicate k [Http nexus_probe, Sleep 1]) @ [Http nexus_probe]))
                   \<lparr>running := running s' @ [''nexus''], atexit_hooks := atexit_hooks s' @ [''nexus'']\<rparr>,
                 Inl Blocked)
            | Refused \<Rightarrow>
                ((logged s' (nexus_preamble (db_path env dbname')
                             @ concat (replicate k [Http nexus_probe, Sleep 1])
                             @ [Http nexus_probe, Terminate ''nexus'', Print ''Nexus timed out'']))
                   \<lparr>running := removeAll ''nexus'' (running s'),
                    atexit_hooks := atexit_hooks s' @ [''nexus'']\<rparr>,
                 Inl (SystemExit 77))))"
proof
  from first_answer [of 9 "\<lambda>j. server env (sent s @ replicate j sandbox_probe) sandbox_probe = Refused"]
  obtain k where "k \<le> 9 \<and>
    (\<forall>j<k. server env (sent s @ replicate j sandbox_probe) sandbox_probe = Refused) \<and>
    (server env (sent s @ replicate k sandbox_probe) sandbox_probe = Refused \<longrightarrow> k = 9)" ..
  then have k: "k \<le> 9"
    "\<forall>j<k. server env (sent s @ replicate j sandbox_probe) sandbox_probe = Refused"
    "server env (sent s @ replicate k sandbox_probe) sandbox_probe = Refused \<longrightarrow> k = 9"
    by simp_all
  from k have "k < 10" by simp
  moreover note k(2) k(3) startSandbox_run [OF assms(1-3) k]
  ultimately show "\<exists>k<10. (\<forall>j<k. server env (sent s @ replicate j sandbox_probe) sandbox_probe = Refused) \<and>
       (server env (sent s @ replicate k sandbox_probe) sandbox_probe = Refused \<longrightarrow> k = 9) \<and>
       startSandbox env dbname s
         = ((logged s (sandbox_preamble (db_path env dbname)
                       @ concat (replicate k [Http sandbox_probe, Sleep 2]) @ [Http sandbox_probe]))
              \<lparr>running := running s @ [''sandbox''], atexit_hooks := atexit_hooks s @ [''sandbox'']\<rparr>,
            case server env (sent s @ replicate k sandbox_probe) sandbox_probe of
              Answer resp \<Rightarrow> Inr ()
            | Refused \<Rightarrow> Inl (Raised NameError)
            | Silent \<Rightarrow> Inl Blocked)"
    by (intro exI [of _ k] conjI)
next
  from first_answer [of 79 "\<lambda>j. server env (sent s' @ replicate j nexus_probe) nexus_probe = Refused"]
  obtain k where "k \<le> 79 \<and>
    (\<forall>j<k. server env (sent s' @ replicate j nexus_probe) nexus_probe = Refused) \<and>
    (server env (sent s' @ replicate k nexus_probe) nexus_probe = Refused \<longrightarrow> k = 79)" ..
  then have k: "k \<le> 79"
    "\<forall>j<k. server env (sent s' @ replicate j nexus_probe) nexus_probe = Refused"
    "server env (sent s' @ replicate k nexus_probe) nexus_probe = Refused \<longrightarrow> k = 79"
    by simp_all
  from k have "k < 80" by simp
  moreover note k(2) k(3) startNexus_run [OF assms(4-7) k]
  ultimately show "\<exists>k<80. (\<forall>j<k. server env (sent s' @ replicate j nexus_probe) nexus_probe = Refused) \<and>
       (server env (sent s' @ replicate k nexus_probe) nexus_probe = Refused \<longrightarrow> k = 79) \<and>
       startNexus env dbname' s'
         = (case server env (sent s' @ replicate k nexus_probe) nexus_probe of
              Answer resp \<Rightarrow>
                ((logged s' (nexus_preamble (db_path env dbname')
                             @ concat (replicate k [Http nexus_probe, Sleep 1]) @ [Http nexus_probe]))
                   \<lparr>running := running s' @ [''nexus''], atexit_hooks := atexit_hooks s' @ [''nexus'']\<rparr>,
                 Inr (nexus_child (db_path env dbname')))
            | Silent \<Rightarrow>
                ((logged s' (nexus_preamble (db_path env dbname')
                             @ concat (replicate k [Http nexus_probe, Sleep 1]) @ [Http nexus_probe]))
                   \<lparr>running := running s' @ [''nexus''], atexit_hooks := atexit_hooks s' @ [''nexus'']\<rparr>,
                 Inl Blocked)
            | Refused \<Rightarrow>
                ((logged s' (nexus_preamble (db_path env dbname')
                             @ concat (replicate k [Http nexus_probe, Sleep 1])
                             @ [Http nexus_probe, Terminate ''nexus'', Print ''Nexus timed out'']))
                   \<lparr>running := removeAll ''nexus'' (running s'),
                    atexit_hooks := atexit_hooks s' @ [''nexus'']\<rparr>,
                 Inl (SystemExit 77)))"
    by (intro exI [of _ k] conjI)
qed

theorem polling_is_bounded_witness:
  "startSandbox (env_of unreachable) ''sandbox-test.sqlite3'' (fresh [] [])
     = ((logged (fresh [] []) (sandbox_preamble ''/tmp/sandbox-test.sqlite3''
                   @ concat (replicate 9 [Http sandbox_probe, Sleep 2]) @ [Http sandbox_probe]))
          \<lparr>running := [''sandbox''], atexit_hooks := [''sandbox'']\<rparr>,
        Inl (Raised NameError)) \<and>
   startNexus (env_of unreachable) ''test-nexus.sqlite3'' (fresh [] [])
     = ((logged (fresh [] []) (nexus_preamble ''/tmp/test-nexus.sqlite3''
                   @ concat (replicate 79 [Http nexus_probe, Sleep 1])
                   @ [Http nexus_probe, Terminate ''nexus'', Print ''Nexus timed out'']))
          \<lparr>running := [], atexit_hooks := [''nexus'']\<rparr>,
        Inl (SystemExit 77))"
proof -
  let ?env = "env_of unreachable"
  have ok: "\<And>cmd. check_call_ok ?env cmd" and db: "\<And>n. db_path ?env n = ''/tmp/'' @ n"
    and srv: "\<And>h r. server ?env h r = Refused"
    and free: "\<And>p. p \<le> 65535 \<Longrightarrow> bind_error p (fresh [] []) = None"
    and st: "running (fresh [] []) = []" "atexit_hooks (fresh [] []) = []"
    by (simp_all add: env_of_def unreachable_def bind_error_def fresh_def)
  from polling_is_bounded [of ?env "''sandbox-test.sqlite3''" "fresh [] []"
      "''test-nexus.sqlite3''" "fresh [] []", OF ok ok free ok ok ok free]
  show ?thesis
    unfolding srv db st by simp
qed

text \<open>
  The claim as written says that the loops always end. A service that accepts the
  connection and never answers keeps the first probe of startSandbox from returning:
  the function does not return, the process has no exit status and no exit hook runs.
\<close>

theorem probe_never_returns:
  "startSandbox (env_of silent) ''sandbox-test.sqlite3'' (fresh [] [])
     = ((logged (fresh [] []) (sandbox_preamble ''/tmp/sandbox-test.sqlite3'' @ [Http sandbox_probe]))
          \<lparr>running := [''sandbox''], atexit_hooks := [''sandbox'']\<rparr>,
        Inl Blocked) \<and>
   python (test_ebics (env_of silent)) (fresh [] [])
     = ((logged (fresh [] []) (sandbox_preamble ''/tmp/sandbox-test.sqlite3'' @ [Http sandbox_probe]))
          \<lparr>running := [''sandbox''], atexit_hooks := [''sandbox'']\<rparr>,
        None)"
proof -
  let ?env = "env_of silent"
  have ok: "\<And>cmd. check_call_ok ?env cmd" and db: "\<And>n. db_path ?env n = ''/tmp/'' @ n"
    and srv: "\<And>h r. server ?env h r = Silent"
    and free: "bind_error 5000 (fresh [] []) = None"
    and st: "running (fresh [] []) = []" "atexit_hooks (fresh [] []) = []"
    by (simp_all add: env_of_def silent_def bind_error_def fresh_def)
  have a: "startSandbox ?env ''sandbox-test.sqlite3'' (fresh [] [])
     = ((logged (fresh [] []) (sandbox_preamble ''/tmp/sandbox-test.sqlite3'' @ [Http sandbox_probe]))
          \<lparr>running := [''sandbox''], atexit_hooks := [''sandbox'']\<rparr>,
        Inl Blocked)"
    using startSandbox_run [of ?env "''sandbox-test.sqlite3''" "fresh [] []" 0, OF ok ok free]
    unfolding srv db st by simp
  have "test_ebics ?env (fresh [] [])
          = (fst (startSandbox ?env ''sandbox-test.sqlite3'' (fresh [] [])), Inl Blocked)"
    unfolding test_ebics_def by (simp add: bnd_def a)
  then have "python (test_ebics ?env) (fresh [] [])
          = (fst (startSandbox ?env ''sandbox-test.sqlite3'' (fresh [] [])), None)"
    by (simp add: python_def)
  with a show ?thesis by simp
qed

subsection \<open>A sandbox that never becomes reachable\<close>

lemma kill_eq:
  "kill nm s = ((logged s (kill_events nm))\<lparr>running := removeAll nm (running s)\<rparr>, Inr ())"
  by (simp add: kill_def kill_events_def bnd_def emit_def py_print_def terminate_def wait_def
      logged_def)

lemma run_hooks_eq:
  "run_hooks hs s
     = ((logged s (concat (map kill_events hs)))
          \<lparr>running := filter (\<lambda>x. x \<notin> set hs) (running s)\<rparr>, Inr ())"
proof (induction hs arbitrary: s)
  case Nil
  show ?case by (simp add: ret_def logged_def)
next
  case (Cons h hs)
  have "filter (\<lambda>x. x \<notin> set hs) (removeAll h (running s))
          = filter (\<lambda>x. x \<notin> set (h # hs)) (running s)"
    by (induction "running s") (auto simp add: removeAll_filter_not_eq intro: filter_cong)
  then show ?case
    by (simp add: bnd_def kill_eq Cons logged_def)
qed

lemma python_eq:
  "python script s =
     (case exit_status (snd (script s)) of
        None \<Rightarrow> (fst (script s), None)
      | Some n \<Rightarrow>
          ((logged (fst (script s))
              ((case snd (script s) of Inl (Raised e) \<Rightarrow> [Traceback e] | _ \<Rightarrow> [])
               @ concat (map kill_events (rev (atexit_hooks (fst (script s)))))))
             \<lparr>running := filter (\<lambda>x. x \<notin> set (atexit_hooks (fst (script s))))
                            (running (fst (script s)))\<rparr>,
           Some n))"
  by (cases "script s")
     (simp add: python_def traceback_def bnd_def emit_def ret_def run_hooks_eq logged_def
       split: sum.splits abort.splits)

text \<open>
  C1. The claim is that a sandbox that never answers makes the run print the child's
  output and a timeout message and exit with code 77. With every build command
  succeeding, port 5000 free and every probe refused, the run makes its ten probes
  and then ends with an uncaught NameError: exit status 1, and neither the timeout
  message nor any output of the child is printed. No scenario request is sent.
\<close>

theorem sandbox_timeout_is_a_NameError:
  "python (test_ebics (env_of unreachable)) (fresh [] [])
     = (\<lparr>busy_ports = [], denied_ports = [], running = [], atexit_hooks = [''sandbox''],
         events =
           [CheckCall [''rm'', ''-f'', ''/tmp/sandbox-test.sqlite3''],
            CheckCall [''../gradlew'', ''-p'', ''..'', ''sandbox:assemble''],
            Bind 5000, Close 5000, Popen (sandbox_child ''/tmp/sandbox-test.sqlite3'')]
           @ concat (replicate 9 [Http sandbox_probe, Sleep 2])
           @ [Http sandbox_probe, Traceback NameError] @ kill_events ''sandbox''\<rparr>,
        Some 1)"
proof -
  let ?env = "env_of unreachable"
  have ok: "\<And>cmd. check_call_ok ?env cmd" and db: "\<And>n. db_path ?env n = ''/tmp/'' @ n"
    and srv: "\<And>h r. server ?env h r = Refused"
    and free: "bind_error 5000 (fresh [] []) = None"
    by (simp_all add: env_of_def unreachable_def bind_error_def fresh_def)
  have a: "startSandbox ?env ''sandbox-test.sqlite3'' (fresh [] [])
     = ((logged (fresh [] []) (sandbox_preamble ''/tmp/sandbox-test.sqlite3''
                   @ concat (replicate 9 [Http sandbox_probe, Sleep 2]) @ [Http sandbox_probe]))
          \<lparr>running := running (fresh [] []) @ [''sandbox''],
           atexit_hooks := atexit_hooks (fresh [] []) @ [''sandbox'']\<rparr>,
        Inl (Raised NameError))"
    using startSandbox_run [of ?env "''sandbox-test.sqlite3''" "fresh [] []" 9, OF ok ok free]
    unfolding srv db by simp
  have "test_ebics ?env (fresh [] [])
          = (fst (startSandbox ?env ''sandbox-test.sqlite3'' (fresh [] [])), Inl (Raised NameError))"
    unfolding test_ebics_def by (simp add: bnd_def a)
  then show ?thesis
    unfolding python_eq a
    by (simp add: fresh_def logged_def sandbox_preamble_def)
qed


subsection \<open>Programs that also launch and stop children\<close>

lemma recordsD: "records P m \<Longrightarrow> \<exists>es. events (fst (m s)) = events s @ es \<and> list_all P es"
  by (simp add: records_def)

lemma records_emits:
  assumes "emits P m"
  shows "records P m"
  unfolding records_def
proof
  fix s
  from emitsD [OF assms, of s] obtain es where "fst (m s) = logged s es \<and> list_all P es" ..
  then show "\<exists>es. events (fst (m s)) = events s @ es \<and> list_all P es"
    by (intro exI [of _ es]) simp
qed

lemma records_bnd:
  assumes "records P m" and "\<And>x. records P (f x)"
  shows "records P (bnd m f)"
  unfolding records_def
proof
  fix s
  from recordsD [OF assms(1), of s] obtain es where
    "events (fst (m s)) = events s @ es \<and> list_all P es" ..
  then have m: "events (fst (m s)) = events s @ es" "list_all P es" by simp_all
  show "\<exists>es. events (fst (bnd m f s)) = events s @ es \<and> list_all P es"
  proof (cases "snd (m s)")
    case (Inl a)
    then have "fst (bnd m f s) = fst (m s)"
      by (cases "m s") (simp add: bnd_def)
    with m show ?thesis by (intro exI [of _ es]) simp
  next
    case (Inr x)
    from recordsD [OF assms(2), of x "fst (m s)"] obtain es' where
      "events (fst (f x (fst (m s)))) = events (fst (m s)) @ es' \<and> list_all P es'" ..
    then have f: "events (fst (f x (fst (m s)))) = events (fst (m s)) @ es'" "list_all P es'"
      by simp_all
    from Inr have "fst (bnd m f s) = fst (f x (fst (m s)))"
      by (cases "m s") (simp add: bnd_def)
    with m f show ?thesis by (intro exI [of _ "es @ es'"]) simp
  qed
qed

lemma records_popen: "P (Popen c) \<Longrightarrow> records P (popen c)"
  unfolding records_def popen_def by (intro allI exI [of _ "[Popen c]"]) simp

lemma records_atexit_register: "records P (atexit_register nm)"
  unfolding records_def atexit_register_def by (intro allI exI [of _ "[]"]) simp

lemma records_nexus_timed_out:
  "P (Terminate ''nexus'') \<Longrightarrow> P (Print ''Nexus timed out'') \<Longrightarrow> records P nexus_timed_out"
  unfolding records_def nexus_timed_out_eq
  by (intro allI exI [of _ "[Terminate ''nexus'', Print ''Nexus timed out'']"]) simp

lemma emits_check_call: "P (CheckCall cmd) \<Longrightarrow> emits P (check_call env cmd)"
  unfolding emits_def check_call_eq by (intro allI exI [of _ "[CheckCall cmd]"]) simp

lemma emits_checkPort:
  assumes "P (Bind port)" and "P (Close port)" and "\<And>t. P (Print t)"
  shows "emits P (checkPort port)"
  unfolding emits_def
proof
  fix s
  show "\<exists>es. fst (checkPort port s) = logged s es \<and> list_all P es"
  proof (cases "bind_error port s")
    case None
    then show ?thesis
      by (intro exI [of _ "[Bind port, Close port]"]) (simp add: checkPort_free assms)
  next
    case (Some e)
    then show ?thesis
      by (intro exI [of _ "[Bind port, Print (''Port '' @ show_nat port @ '' is not available''),
                Print (exc_class (Raised e))]"])
         (simp add: checkPort_fails assms)
  qed
qed

lemma emits_sandbox_poll:
  assumes "P (Http sandbox_probe)" and "P (Sleep 2)"
  shows "emits P (sandbox_poll env xs)"
  unfolding emits_def
proof (induction xs)
  case Nil
  show ?case by (intro allI exI [of _ "[]"]) (simp add: ret_def)
next
  case (Cons i xs)
  show ?case
  proof
    fix s
    from spec [OF Cons, of "logged s [Http sandbox_probe, Sleep 2]"] obtain es where
      "fst (sandbox_poll env xs (logged s [Http sandbox_probe, Sleep 2]))
             = logged (logged s [Http sandbox_probe, Sleep 2]) es \<and> list_all P es" ..
    then have es: "fst (sandbox_poll env xs (logged s [Http sandbox_probe, Sleep 2]))
             = logged s ([Http sandbox_probe, Sleep 2] @ es)" "list_all P es"
      by simp_all
    show "\<exists>es. fst (sandbox_poll env (i # xs) s) = logged s es \<and> list_all P es"
    proof (cases "server env (sent s) sandbox_probe = Refused \<and> i \<noteq> 9")
      case True
      with es show ?thesis
        by (intro exI [of _ "[Http sandbox_probe, Sleep 2] @ es"])
           (simp add: sandbox_poll_Cons assms)
    next
      case False
      then show ?thesis
        by (intro exI [of _ "[Http sandbox_probe]"])
           (auto simp add: sandbox_poll_Cons assms split: reply.splits)
    qed
  qed
qed

lemma emits_probe:
  "P (Http \<lparr>meth = ''GET'', url = u, headers = [], req_json = None\<rparr>) \<Longrightarrow>
   emits P (try_except (bnd (get env u []) (\<lambda>_. ret True)) (\<lambda>_. ret False))"
  unfolding emits_def probe_eq
  by (intro allI exI [of _ "[Http \<lparr>meth = ''GET'', url = u, headers = [], req_json = None\<rparr>]"]) simp

lemma emits_sleep: "P (Sleep n) \<Longrightarrow> emits P (sleep n)"
  by (simp add: sleep_def emits_emit)

lemma records_nexus_poll:
  assumes "P (Http nexus_probe)" and "P (Sleep 1)"
    and "P (Terminate ''nexus'')" and "P (Print ''Nexus timed out'')"
  shows "records P (nexus_poll env xs)"
proof (induction xs)
  case Nil
  show ?case by (simp add: records_emits emits_ret)
next
  case (Cons i xs)
  have probe: "P (Http \<lparr>meth = ''GET'', url = ''http://localhost:5001/'', headers = [], req_json = None\<rparr>)"
    using assms(1) by (simp add: nexus_probe_def)
  have sl: "P (Sleep (Suc 0))"
    using assms(2) by simp
  show ?case
    unfolding nexus_poll.simps
    by (intro records_bnd records_emits [OF emits_probe] probe)
       (auto intro!: records_bnd records_nexus_timed_out Cons assms sl
          records_emits [OF emits_ret] records_emits [OF emits_sleep])
qed

lemma records_startSandbox:
  assumes "\<And>cmd. P (CheckCall cmd)" and "\<And>p. P (Bind p)" and "\<And>p. P (Close p)"
    and "\<And>t. P (Print t)" and "\<And>c. P (Popen c)" and "\<And>n. P (Sleep n)"
    and "P (Http sandbox_probe)"
  shows "records P (startSandbox env dbname)"
  unfolding startSandbox_def Let_def
  by (intro records_bnd records_popen records_atexit_register
        records_emits [OF emits_check_call] records_emits [OF emits_checkPort]
        records_emits [OF emits_sandbox_poll] assms)

lemma records_startNexus:
  assumes "\<And>cmd. P (CheckCall cmd)" and "\<And>p. P (Bind p)" and "\<And>p. P (Close p)"
    and "\<And>t. P (Print t)" and "\<And>c. P (Popen c)" and "\<And>n. P (Sleep n)"
    and "\<And>n. P (Terminate n)" and "P (Http nexus_probe)"
  shows "records P (startNexus env dbname)"
  unfolding startNexus_def Let_def
  by (intro records_bnd records_popen records_atexit_register records_nexus_poll
        records_emits [OF emits_check_call] records_emits [OF emits_checkPort]
        records_emits [OF emits_ret] assms)

subsection \<open>The Authorization header\<close>

lemma b64_user: "b64encode ''person:y'' = ''cGVyc29uOnk=''"
  by (simp add: b64encode_def b64_char_def b64_alphabet_def Let_def)

lemma b64_admin: "b64encode ''admin:x'' = ''YWRtaW46eA==''"
  by (simp add: b64encode_def b64_char_def b64_alphabet_def Let_def)

lemma authorized_nexus_user:
  "p \<noteq> ''/users'' \<Longrightarrow> p \<noteq> ''/'' \<Longrightarrow> prefix ''/'' p \<Longrightarrow>
   authorized \<lparr>meth = m, url = nexus p, headers = user_headers, req_json = j\<rparr>"
  by (simp add: authorized_def gateway_admin_def simulator_admin_def readiness_probe_def
      user_endpoint_def authorization_def user_headers_def USER_AUTHORIZATION_HEADER_def
      nexus_def sandbox_def)

lemma authorized_nexus_admin:
  "authorized \<lparr>meth = m, url = nexus ''/users'', headers = admin_headers, req_json = j\<rparr>"
  by (simp add: authorized_def gateway_admin_def simulator_admin_def readiness_probe_def
      user_endpoint_def authorization_def admin_headers_def ADMIN_AUTHORIZATION_HEADER_def
      nexus_def sandbox_def)

lemma authorized_sandbox:
  "prefix ''/admin/'' p \<Longrightarrow>
   authorized \<lparr>meth = m, url = sandbox p, headers = [], req_json = j\<rparr>"
  by (simp add: authorized_def gateway_admin_def simulator_admin_def readiness_probe_def
      user_endpoint_def authorization_def nexus_def sandbox_def)

lemma authorized_probes: "authorized sandbox_probe" "authorized nexus_probe"
  by (simp_all add: authorized_def gateway_admin_def simulator_admin_def readiness_probe_def
      user_endpoint_def authorization_def nexus_def sandbox_def sandbox_probe_def nexus_probe_def)

lemma emits_scenario:
  assumes pr: "\<And>t. P (Print t)" and ht: "\<And>r. authorized r \<Longrightarrow> P (Http r)"
  shows "emits P (from_step_0 env)"
  unfolding from_step_0_def from_step_1a_def from_step_3_def from_step_4_def from_step_5a_def
    from_get_payment_def from_step_5b_def from_step_6_def asserted_post_def post_def get_def
  by (intro emits_bnd emits_if emits_ret emits_lift_exn emits_resp_json emits_transaction_count
        emits_json_check emits_assertResponse emits_fail emits_print emits_http pr ht
        authorized_sandbox authorized_nexus_admin authorized_nexus_user)
     (simp_all add: BANK_ACCOUNT_LABEL_def)

lemma records_test_ebics:
  assumes "\<And>cmd. P (CheckCall cmd)" and "\<And>p. P (Bind p)" and "\<And>p. P (Close p)"
    and "\<And>t. P (Print t)" and "\<And>c. P (Popen c)" and "\<And>n. P (Sleep n)"
    and "\<And>n. P (Terminate n)" and "\<And>r. authorized r \<Longrightarrow> P (Http r)"
  shows "records P (test_ebics env)"
  unfolding test_ebics_def
  by (intro records_bnd records_startSandbox records_startNexus
        records_emits [OF emits_scenario] assms authorized_probes)

lemma authorizedD:
  assumes "authorized r"
  shows "(gateway_admin r \<longrightarrow> authorization r = Some (''basic '' @ b64encode ''admin:x'')
                            \<and> authorization r = Some ''basic YWRtaW46eA=='') \<and>
        (user_endpoint r \<longrightarrow> authorization r = Some (''basic '' @ b64encode ''person:y'')
                           \<and> authorization r = Some ''basic cGVyc29uOnk='') \<and>
        (simulator_admin r \<or> readiness_probe r \<longrightarrow> authorization r = None) \<and>
        (gateway_admin r \<or> user_endpoint r \<or> simulator_admin r \<or> readiness_probe r)"
proof -
  from assms have c1: "(gateway_admin r \<longrightarrow> authorization r = Some (''basic '' @ b64encode ''admin:x'')) \<and>
      (user_endpoint r \<longrightarrow> authorization r = Some (''basic '' @ b64encode ''person:y'')) \<and>
      (simulator_admin r \<or> readiness_probe r \<longrightarrow> authorization r = None) \<and>
      (gateway_admin r \<or> user_endpoint r \<or> simulator_admin r \<or> readiness_probe r)"
    unfolding authorized_def .
  from c1 have 1: "gateway_admin r \<longrightarrow> authorization r = Some (''basic '' @ b64encode ''admin:x'')" ..
  from c1 have c2: "(user_endpoint r \<longrightarrow> authorization r = Some (''basic '' @ b64encode ''person:y'')) \<and>
      (simulator_admin r \<or> readiness_probe r \<longrightarrow> authorization r = None) \<and>
      (gateway_admin r \<or> user_endpoint r \<or> simulator_admin r \<or> readiness_probe r)" ..
  from c2 have 2: "user_endpoint r \<longrightarrow> authorization r = Some (''basic '' @ b64encode ''person:y'')" ..
  from c2 have c3: "(simulator_admin r \<or> readiness_probe r \<longrightarrow> authorization r = None) \<and>
      (gateway_admin r \<or> user_endpoint r \<or> simulator_admin r \<or> readiness_probe r)" ..
  from c3 have 3: "simulator_admin r \<or> readiness_probe r \<longrightarrow> authorization r = None" ..
  from c3 have 4: "gateway_admin r \<or> user_endpoint r \<or> simulator_admin r \<or> readiness_probe r" ..
  from 1 have u1: "gateway_admin r \<longrightarrow> authorization r = Some ''basic YWRtaW46eA==''"
    unfolding b64_admin append.simps .
  from 2 have u2: "user_endpoint r \<longrightarrow> authorization r = Some ''basic cGVyc29uOnk=''"
    unfolding b64_user append.simps .
  from 1 u1 have a: "gateway_admin r \<longrightarrow> authorization r = Some (''basic '' @ b64encode ''admin:x'')
                            \<and> authorization r = Some ''basic YWRtaW46eA==''"
    by (intro impI conjI) (erule (1) mp)+
  from 2 u2 have b: "user_endpoint r \<longrightarrow> authorization r = Some (''basic '' @ b64encode ''person:y'')
                           \<and> authorization r = Some ''basic cGVyc29uOnk=''"
    by (intro impI conjI) (erule (1) mp)+
  from a b 3 4 show ?thesis by (intro conjI)
qed

text \<open>
  C4, as amended. Whatever the environment does, every request of a run is of one of
  four kinds. A request to the gateway's admin endpoint \<open>/users\<close> carries the
  Authorization header "basic " followed by the base64 encoding of "admin:x"; a
  request to a user endpoint of the gateway carries "basic " followed by the base64
  encoding of "person:y"; a request to an admin endpoint of the simulator and a
  readiness probe carry no Authorization header.
\<close>

theorem requests_carry_authorization:
  "\<exists>es. events (fst (test_ebics env s)) = events s @ es \<and>
     (\<forall>r. Http r \<in> set es \<longrightarrow>
        (gateway_admin r \<longrightarrow> authorization r = Some (''basic '' @ b64encode ''admin:x'')
                            \<and> authorization r = Some ''basic YWRtaW46eA=='') \<and>
        (user_endpoint r \<longrightarrow> authorization r = Some (''basic '' @ b64encode ''person:y'')
                           \<and> authorization r = Some ''basic cGVyc29uOnk='') \<and>
        (simulator_admin r \<or> readiness_probe r \<longrightarrow> authorization r = None) \<and>
        (gateway_admin r \<or> user_endpoint r \<or> simulator_admin r \<or> readiness_probe r))"
proof -
  let ?P = "\<lambda>e. case e of Http r \<Rightarrow> authorized r | _ \<Rightarrow> True"
  have "records ?P (test_ebics env)"
    by (rule records_test_ebics) simp_all
  from recordsD [OF this, of s] obtain es where
    "events (fst (test_ebics env s)) = events s @ es \<and> list_all ?P es" ..
  then have es: "events (fst (test_ebics env s)) = events s @ es" "list_all ?P es"
    by simp_all
  from es(2) have a: "\<forall>r. Http r \<in> set es \<longrightarrow> authorized r"
    by (auto simp: list_all_iff)
  have "\<forall>r. Http r \<in> set es \<longrightarrow>
        (gateway_admin r \<longrightarrow> authorization r = Some (''basic '' @ b64encode ''admin:x'')
                            \<and> authorization r = Some ''basic YWRtaW46eA=='') \<and>
        (user_endpoint r \<longrightarrow> authorization r = Some (''basic '' @ b64encode ''person:y'')
                           \<and> authorization r = Some ''basic cGVyc29uOnk='') \<and>
        (simulator_admin r \<or> readiness_probe r \<longrightarrow> authorization r = None) \<and>
        (gateway_admin r \<or> user_endpoint r \<or> simulator_admin r \<or> readiness_probe r)"
  proof (intro allI impI)
    fix r
    assume "Http r \<in> set es"
    then have "authorized r" by (rule a [rule_format])
    then show "(gateway_admin r \<longrightarrow> authorization r = Some (''basic '' @ b64encode ''admin:x'')
                            \<and> authorization r = Some ''basic YWRtaW46eA=='') \<and>
        (user_endpoint r \<longrightarrow> authorization r = Some (''basic '' @ b64encode ''person:y'')
                           \<and> authorization r = Some ''basic cGVyc29uOnk='') \<and>
        (simulator_admin r \<or> readiness_probe r \<longrightarrow> authorization r = None) \<and>
        (gateway_admin r \<or> user_endpoint r \<or> simulator_admin r \<or> readiness_probe r)"
      by (rule authorizedD)
  qed
  with es(1) show ?thesis
    by (intro exI [of _ es] conjI)
qed


text \<open>A run in which every request is answered with an empty JSON object.\<close>

lemma scenario_without_transactions:
  "from_step_0 (env_of (always (ok_response (JObj [])))) s
     = (logged s
          [Http host_request,
           Http \<lparr>meth = ''POST'', url = sandbox ''/admin/ebics/subscribers'', headers = [],
                  req_json = Some subscriber\<rparr>,
           Http \<lparr>meth = ''POST'', url = sandbox ''/admin/ebics/bank-accounts'', headers = [],
                  req_json = Some (JObj [(''subscriber'', subscriber), (''iban'', JStr SUBSCRIBER_IBAN),
                         (''bic'', JStr SUBSCRIBER_BIC), (''name'', JStr SUBSCRIBER_NAME),
                         (''label'', JStr BANK_ACCOUNT_LABEL)])\<rparr>,
           Http users_request,
           Print ''creating bank connection'',
           Http \<lparr>meth = ''POST'', url = nexus ''/bank-connections'', headers = user_headers,
                  req_json = Some (JObj [(''name'', JStr ''my-ebics''), (''source'', JStr ''new''),
                         (''type'', JStr ''ebics''),
                         (''data'', JObj [(''ebicsURL'', JStr EBICS_URL), (''hostID'', JStr HOST_ID),
                                          (''partnerID'', JStr PARTNER_ID), (''userID'', JStr USER_ID)])])\<rparr>,
           Print ''sending ini & hia'',
           Http \<lparr>meth = ''POST'', url = nexus ''/bank-connections/my-ebics/ebics/send-ini'',
                  headers = user_headers, req_json = Some (JObj [])\<rparr>,
           Http \<lparr>meth = ''POST'', url = nexus ''/bank-connections/my-ebics/ebics/send-hia'',
                  headers = user_headers, req_json = Some (JObj [])\<rparr>,
           Http \<lparr>meth = ''POST'', url = nexus ''/bank-connections/my-ebics/ebics/send-hpb'',
                  headers = user_headers, req_json = Some (JObj [])\<rparr>,
           Http \<lparr>meth = ''POST'', url = nexus ''/bank-connections/my-ebics/ebics/download/tsd'',
                  headers = user_headers, req_json = None\<rparr>,
           Http \<lparr>meth = ''POST'', url = nexus ''/bank-connections/my-ebics/ebics/import-accounts'',
                  headers = user_headers, req_json = Some (JObj [])\<rparr>,
           Http (fetch_request fetch_body),
           Http transactions_request],
        Inl (Raised TypeError))"
  unfolding from_step_0_def from_step_1a_def from_step_3_def from_step_4_def asserted_post_def
    post_fetch get_transactions users_request_def host_request_def
  by (simp add: post_def bnd_def http_eq env_of_def always_def ok_response_def assertResponse_def
      ret_def raise_def py_print_eq transaction_count_def resp_json_def lift_exn_def)

lemma run_without_transactions:
  "events (fst (test_ebics (env_of (always (ok_response (JObj [])))) (fresh [] [])))
     = sandbox_preamble ''/tmp/sandbox-test.sqlite3'' @ [Http sandbox_probe]
       @ nexus_preamble ''/tmp/test-nexus.sqlite3'' @ [Http nexus_probe]
       @ events (fst (from_step_0 (env_of (always (ok_response (JObj [])))) (fresh [] [])))"
proof -
  let ?env = "env_of (always (ok_response (JObj [])))"
  have ok: "\<And>cmd. check_call_ok ?env cmd" and db: "\<And>n. db_path ?env n = ''/tmp/'' @ n"
    and srv: "\<And>h r. server ?env h r = Answer (ok_response (JObj []))"
    by (simp_all add: env_of_def always_def)
  let ?s1 = "(logged (fresh [] []) (sandbox_preamble ''/tmp/sandbox-test.sqlite3'' @ [Http sandbox_probe]))
          \<lparr>running := running (fresh [] []) @ [''sandbox''],
           atexit_hooks := atexit_hooks (fresh [] []) @ [''sandbox'']\<rparr>"
  have free: "bind_error 5000 (fresh [] []) = None" "bind_error 5001 ?s1 = None"
    by (simp_all add: bind_error_def fresh_def logged_def)
  have a: "startSandbox ?env ''sandbox-test.sqlite3'' (fresh [] []) = (?s1, Inr ())"
    using startSandbox_run [of ?env "''sandbox-test.sqlite3''" "fresh [] []" 0, OF ok ok free(1)]
    unfolding srv db by simp
  let ?s2 = "(logged ?s1 (nexus_preamble ''/tmp/test-nexus.sqlite3'' @ [Http nexus_probe]))
          \<lparr>running := running ?s1 @ [''nexus''], atexit_hooks := atexit_hooks ?s1 @ [''nexus'']\<rparr>"
  have b: "startNexus ?env ''test-nexus.sqlite3'' ?s1
             = (?s2, Inr (nexus_child ''/tmp/test-nexus.sqlite3''))"
    using startNexus_run [of ?env "''test-nexus.sqlite3''" ?s1 0, OF ok ok ok free(2)]
    unfolding srv db by simp
  have c: "\<And>s. events (fst (from_step_0 ?env s))
             = events s @ events (fst (from_step_0 ?env (fresh [] [])))"
    unfolding scenario_without_transactions by (simp add: fresh_def)
  have t: "test_ebics ?env (fresh [] []) = from_step_0 ?env ?s2"
    unfolding test_ebics_def NEXUS_DB_def by (simp add: bnd_def a b)
  have e: "events (fresh [] []) = []"
    by (simp add: fresh_def)
  show ?thesis
    unfolding t c [of ?s2] by (simp add: e)
qed

text \<open>
  The claim as written says that every request to an admin endpoint carries the admin
  credentials. The first request of the scenario registers the EBICS host at an admin
  endpoint of the simulator and carries no Authorization header.
\<close>

theorem admin_request_without_authorization:
  "Http host_request
     \<in> set (events (fst (test_ebics (env_of (always (ok_response (JObj [])))) (fresh [] [])))) \<and>
   admin_endpoint host_request \<and> authorization host_request = None"
  unfolding run_without_transactions scenario_without_transactions
  by (simp add: admin_endpoint_def simulator_admin_def authorization_def host_request_def
      sandbox_def)

lemma first_class: "(a \<longrightarrow> x \<and> y) \<and> rest \<Longrightarrow> a \<Longrightarrow> y"
  by blast

lemma second_class: "p \<and> (b \<longrightarrow> x \<and> y) \<and> rest \<Longrightarrow> b \<Longrightarrow> y"
  by blast

lemma third_class: "p \<and> q \<and> (c \<or> d \<longrightarrow> z) \<and> rest \<Longrightarrow> c \<Longrightarrow> z"
  by blast

lemma fourth_class: "p \<and> q \<and> (c \<or> d \<longrightarrow> z) \<and> rest \<Longrightarrow> d \<Longrightarrow> z"
  by blast

theorem requests_carry_authorization_witness:
  "Http users_request
     \<in> set (events (fst (test_ebics (env_of (always (ok_response (JObj [])))) (fresh [] [])))) \<and>
   gateway_admin users_request \<and>
   authorization users_request = Some ''basic YWRtaW46eA=='' \<and>
   Http transactions_request
     \<in> set (events (fst (test_ebics (env_of (always (ok_response (JObj [])))) (fresh [] [])))) \<and>
   user_endpoint transactions_request \<and>
   authorization transactions_request = Some ''basic cGVyc29uOnk='' \<and>
   Http host_request
     \<in> set (events (fst (test_ebics (env_of (always (ok_response (JObj [])))) (fresh [] [])))) \<and>
   simulator_admin host_request \<and>
   authorization host_request = None \<and>
   Http nexus_probe
     \<in> set (events (fst (test_ebics (env_of (always (ok_response (JObj [])))) (fresh [] [])))) \<and>
   readiness_probe nexus_probe \<and>
   authorization nexus_probe = None"
proof -
  let ?run = "test_ebics (env_of (always (ok_response (JObj [])))) (fresh [] [])"
  let ?Q = "\<lambda>r. (gateway_admin r \<longrightarrow> authorization r = Some (''basic '' @ b64encode ''admin:x'')
                            \<and> authorization r = Some ''basic YWRtaW46eA=='') \<and>
        (user_endpoint r \<longrightarrow> authorization r = Some (''basic '' @ b64encode ''person:y'')
                           \<and> authorization r = Some ''basic cGVyc29uOnk='') \<and>
        (simulator_admin r \<or> readiness_probe r \<longrightarrow> authorization r = None) \<and>
        (gateway_admin r \<or> user_endpoint r \<or> simulator_admin r \<or> readiness_probe r)"
  from requests_carry_authorization [of "env_of (always (ok_response (JObj [])))" "fresh [] []"]
  obtain es where c: "events (fst ?run) = events (fresh [] []) @ es \<and>
      (\<forall>r. Http r \<in> set es \<longrightarrow> ?Q r)" ..
  from c have ev0: "events (fst ?run) = events (fresh [] []) @ es" ..
  from c have auth: "\<forall>r. Http r \<in> set es \<longrightarrow> ?Q r" ..
  have e: "events (fresh [] []) = []"
    by (simp add: fresh_def)
  from ev0 have ev: "events (fst ?run) = es"
    unfolding e by simp
  have mem: "Http users_request \<in> set (events (fst ?run))"
    "Http transactions_request \<in> set (events (fst ?run))"
    "Http host_request \<in> set (events (fst ?run))"
    "Http nexus_probe \<in> set (events (fst ?run))"
    unfolding run_without_transactions scenario_without_transactions by simp_all
  have ep: "gateway_admin users_request" "user_endpoint transactions_request"
    "simulator_admin host_request" "readiness_probe nexus_probe"
    by (simp_all add: gateway_admin_def user_endpoint_def simulator_admin_def readiness_probe_def
        users_request_def transactions_request_def host_request_def nexus_probe_def
        nexus_def sandbox_def)
  from mem(1) have "?Q users_request" unfolding ev by (rule auth [rule_format])
  then have 1: "authorization users_request = Some ''basic YWRtaW46eA==''"
    using ep(1) by (rule first_class)
  from mem(2) have "?Q transactions_request" unfolding ev by (rule auth [rule_format])
  then have 2: "authorization transactions_request = Some ''basic cGVyc29uOnk=''"
    using ep(2) by (rule second_class)
  from mem(3) have "?Q host_request" unfolding ev by (rule auth [rule_format])
  then have 3: "authorization host_request = None"
    using ep(3) by (rule third_class)
  from mem(4) have "?Q nexus_probe" unfolding ev by (rule auth [rule_format])
  then have 4: "authorization nexus_probe = None"
    using ep(4) by (rule fourth_class)
  from mem ep 1 2 3 4 show ?thesis by (intro conjI)
qed


subsection \<open>The exit hooks\<close>

lemma tally_append [simp]:
  "launches nm (es @ es') = launches nm es + launches nm es'"
  "terminations nm (es @ es') = terminations nm es + terminations nm es'"
  "waits nm (es @ es') = waits nm es + waits nm es'"
  by (simp_all add: launches_def terminations_def waits_def)

lemma tally_Nil [simp]:
  "launches nm [] = 0" "terminations nm [] = 0" "waits nm [] = 0"
  by (simp_all add: launches_def terminations_def waits_def)

lemma tally_calm:
  "list_all calm es \<Longrightarrow> launches nm es = 0 \<and> terminations nm es = 0 \<and> waits nm es = 0"
proof (induction es)
  case Nil
  show ?case by simp
next
  case (Cons e es)
  then show ?case
    by (cases e) (simp_all add: launches_def terminations_def waits_def)
qed

lemma tally_kill_events [simp]:
  "launches nm (kill_events h) = 0"
  "terminations nm (kill_events h) = (if h = nm then 1 else 0)"
  "waits nm (kill_events h) = (if h = nm then 1 else 0)"
  by (simp_all add: kill_events_def launches_def terminations_def waits_def)

lemma tally_hooks:
  "launches nm (concat (map kill_events hs)) = 0 \<and>
   terminations nm (concat (map kill_events hs)) = count_list hs nm \<and>
   waits nm (concat (map kill_events hs)) = count_list hs nm"
  by (induction hs) simp_all

lemma supervisedD:
  "supervised ns m \<Longrightarrow>
   \<exists>es hs rs.
        fst (m s) = (logged s es)\<lparr>running := rs, atexit_hooks := atexit_hooks s @ hs\<rparr> \<and>
        set rs \<subseteq> set (running s) \<union> set hs \<and>
        prefix hs ns \<and> (\<not> isl (snd (m s)) \<longrightarrow> hs = ns) \<and>
        (\<forall>nm. launches nm es = count_list hs nm \<and> waits nm es = 0 \<and>
              (terminations nm es = 0 \<or>
               nm = ''nexus'' \<and> terminations nm es = 1 \<and> snd (m s) = Inl (SystemExit 77)))"
  by (simp add: supervised_def)

lemma supervised_calm:
  assumes "emits calm m"
  shows "supervised [] m"
  unfolding supervised_def
proof
  fix s
  from emitsD [OF assms, of s] obtain es where es: "fst (m s) = logged s es \<and> list_all calm es" ..
  then have "\<forall>nm. launches nm es = 0 \<and> terminations nm es = 0 \<and> waits nm es = 0"
    using tally_calm by blast
  with es show "\<exists>es hs rs.
        fst (m s) = (logged s es)\<lparr>running := rs, atexit_hooks := atexit_hooks s @ hs\<rparr> \<and>
        set rs \<subseteq> set (running s) \<union> set hs \<and>
        prefix hs [] \<and> (\<not> isl (snd (m s)) \<longrightarrow> hs = []) \<and>
        (\<forall>nm. launches nm es = count_list hs nm \<and> waits nm es = 0 \<and>
              (terminations nm es = 0 \<or>
               nm = ''nexus'' \<and> terminations nm es = 1 \<and> snd (m s) = Inl (SystemExit 77)))"
    by (intro exI [of _ es] exI [of _ "[]"] exI [of _ "running s"]) (simp add: logged_def)
qed

lemma bnd_Inl: "snd (m s) = Inl a \<Longrightarrow> bnd m f s = (fst (m s), Inl a)"
  by (cases "m s") (simp add: bnd_def)

lemma bnd_Inr: "snd (m s) = Inr x \<Longrightarrow> bnd m f s = f x (fst (m s))"
  by (cases "m s") (simp add: bnd_def)

lemma supervised_bnd:
  assumes m: "supervised ns m" and f: "\<And>x. supervised ns' (f x)"
  shows "supervised (ns @ ns') (bnd m f)"
  unfolding supervised_def
proof
  fix s
  from supervisedD [OF m, of s] obtain es hs rs where
    1: "fst (m s) = (logged s es)\<lparr>running := rs, atexit_hooks := atexit_hooks s @ hs\<rparr>"
    and r: "set rs \<subseteq> set (running s) \<union> set hs"
    and 2: "prefix hs ns" and 3: "\<not> isl (snd (m s)) \<longrightarrow> hs = ns"
    and 4: "\<forall>nm. launches nm es = count_list hs nm \<and> waits nm es = 0 \<and>
              (terminations nm es = 0 \<or>
               nm = ''nexus'' \<and> terminations nm es = 1 \<and> snd (m s) = Inl (SystemExit 77))"
    by (elim exE conjE)
  show "\<exists>es hs rs.
        fst (bnd m f s) = (logged s es)\<lparr>running := rs, atexit_hooks := atexit_hooks s @ hs\<rparr> \<and>
        set rs \<subseteq> set (running s) \<union> set hs \<and>
        prefix hs (ns @ ns') \<and> (\<not> isl (snd (bnd m f s)) \<longrightarrow> hs = ns @ ns') \<and>
        (\<forall>nm. launches nm es = count_list hs nm \<and> waits nm es = 0 \<and>
              (terminations nm es = 0 \<or>
               nm = ''nexus'' \<and> terminations nm es = 1 \<and> snd (bnd m f s) = Inl (SystemExit 77)))"
  proof (cases "snd (m s)")
    case (Inl a)
    then have b: "bnd m f s = (fst (m s), Inl a)" by (rule bnd_Inl)
    from 2 have "prefix hs (ns @ ns')" by (simp add: prefix_prefix)
    with 1 r 4 Inl show ?thesis
      by (intro exI [of _ es] exI [of _ hs] exI [of _ rs]) (simp add: b)
  next
    case (Inr x)
    then have b: "bnd m f s = f x (fst (m s))" by (rule bnd_Inr)
    from Inr 3 have hs: "hs = ns" by simp
    from Inr 4 have calm1: "\<forall>nm. launches nm es = count_list hs nm \<and> waits nm es = 0 \<and>
              terminations nm es = 0" by simp
    from supervisedD [OF f, of x "fst (m s)"] obtain es' hs' rs' where
      5: "fst (f x (fst (m s)))
            = (logged (fst (m s)) es')\<lparr>running := rs', atexit_hooks := atexit_hooks (fst (m s)) @ hs'\<rparr>"
      and r': "set rs' \<subseteq> set (running (fst (m s))) \<union> set hs'"
      and 6: "prefix hs' ns'" and 7: "\<not> isl (snd (f x (fst (m s)))) \<longrightarrow> hs' = ns'"
      and 8: "\<forall>nm. launches nm es' = count_list hs' nm \<and> waits nm es' = 0 \<and>
              (terminations nm es' = 0 \<or>
               nm = ''nexus'' \<and> terminations nm es' = 1 \<and> snd (f x (fst (m s))) = Inl (SystemExit 77))"
      by (elim exE conjE)
    have "fst (bnd m f s)
            = (logged (fst (m s)) es')\<lparr>running := rs', atexit_hooks := atexit_hooks (fst (m s)) @ hs'\<rparr>"
      unfolding b by (rule 5)
    also have "\<dots> = (logged s (es @ es'))\<lparr>running := rs', atexit_hooks := atexit_hooks s @ (hs @ hs')\<rparr>"
      unfolding 1 by (simp add: logged_def)
    finally have st: "fst (bnd m f s)
        = (logged s (es @ es'))\<lparr>running := rs', atexit_hooks := atexit_hooks s @ (hs @ hs')\<rparr>" .
    have "running (fst (m s)) = rs"
      unfolding 1 by simp
    with r r' have rr: "set rs' \<subseteq> set (running s) \<union> set (hs @ hs')"
      by auto
    from 6 hs have p: "prefix (hs @ hs') (ns @ ns')" by simp
    from 7 hs have c: "\<not> isl (snd (bnd m f s)) \<longrightarrow> hs @ hs' = ns @ ns'" by (simp add: b)
    from calm1 8 have t: "\<forall>nm. launches nm (es @ es') = count_list (hs @ hs') nm \<and>
              waits nm (es @ es') = 0 \<and>
              (terminations nm (es @ es') = 0 \<or>
               nm = ''nexus'' \<and> terminations nm (es @ es') = 1 \<and> snd (bnd m f s) = Inl (SystemExit 77))"
      by (simp add: b)
    from st rr p c t show ?thesis
      by (intro exI [of _ "es @ es'"] exI [of _ "hs @ hs'"] exI [of _ rs'] conjI)
  qed
qed

lemma supervised_pre:
  "supervised [] m \<Longrightarrow> (\<And>x. supervised ns (f x)) \<Longrightarrow> supervised ns (bnd m f)"
  using supervised_bnd [of "[]" m ns f] by simp

lemma supervised_post:
  "supervised ns m \<Longrightarrow> (\<And>x. supervised [] (f x)) \<Longrightarrow> supervised ns (bnd m f)"
  using supervised_bnd [of ns m "[]" f] by simp

lemma launch_eq:
  "bnd (popen c) (\<lambda>_. bnd (atexit_register nm) (\<lambda>_. k)) s
     = k ((logged s [Popen c])
            \<lparr>running := running s @ [child_name c], atexit_hooks := atexit_hooks s @ [nm]\<rparr>)"
  by (simp add: bnd_def popen_def atexit_register_def) (simp add: logged_def launch_order)

lemma supervised_launch:
  assumes c: "child_name c = nm" and k: "supervised ns k"
  shows "supervised (nm # ns) (bnd (popen c) (\<lambda>_. bnd (atexit_register nm) (\<lambda>_. k)))"
  unfolding supervised_def launch_eq
proof
  fix s
  let ?s = "(logged s [Popen c])
              \<lparr>running := running s @ [child_name c], atexit_hooks := atexit_hooks s @ [nm]\<rparr>"
  from supervisedD [OF k, of ?s] obtain es hs rs where
    1: "fst (k ?s) = (logged ?s es)\<lparr>running := rs, atexit_hooks := atexit_hooks ?s @ hs\<rparr>"
    and r: "set rs \<subseteq> set (running ?s) \<union> set hs"
    and 2: "prefix hs ns" and 3: "\<not> isl (snd (k ?s)) \<longrightarrow> hs = ns"
    and 4: "\<forall>nm. launches nm es = count_list hs nm \<and> waits nm es = 0 \<and>
              (terminations nm es = 0 \<or>
               nm = ''nexus'' \<and> terminations nm es = 1 \<and> snd (k ?s) = Inl (SystemExit 77))"
    by (elim exE conjE)
  have st: "fst (k ?s)
      = (logged s (Popen c # es))\<lparr>running := rs, atexit_hooks := atexit_hooks s @ (nm # hs)\<rparr>"
    unfolding 1 by (simp add: logged_def)
  from r have rr: "set rs \<subseteq> set (running s) \<union> set (nm # hs)"
    by (auto simp add: c)
  have one: "\<And>n. launches n [Popen c] = (if nm = n then 1 else 0)"
    "\<And>n. waits n [Popen c] = 0" "\<And>n. terminations n [Popen c] = 0"
    by (simp_all add: launches_def waits_def terminations_def c)
  have t: "\<forall>n. launches n (Popen c # es) = count_list (nm # hs) n \<and> waits n (Popen c # es) = 0 \<and>
              (terminations n (Popen c # es) = 0 \<or>
               n = ''nexus'' \<and> terminations n (Popen c # es) = 1 \<and> snd (k ?s) = Inl (SystemExit 77))"
    using 4 tally_append [of _ "[Popen c]" es] by (simp add: one)
  from 2 have p: "prefix (nm # hs) (nm # ns)" by simp
  from 3 have e: "\<not> isl (snd (k ?s)) \<longrightarrow> nm # hs = nm # ns" by simp
  from st rr p e t show "\<exists>es hs rs.
        fst (k ?s) = (logged s es)\<lparr>running := rs, atexit_hooks := atexit_hooks s @ hs\<rparr> \<and>
        set rs \<subseteq> set (running s) \<union> set hs \<and>
        prefix hs (nm # ns) \<and> (\<not> isl (snd (k ?s)) \<longrightarrow> hs = nm # ns) \<and>
        (\<forall>nm. launches nm es = count_list hs nm \<and> waits nm es = 0 \<and>
              (terminations nm es = 0 \<or>
               nm = ''nexus'' \<and> terminations nm es = 1 \<and> snd (k ?s) = Inl (SystemExit 77)))"
    by (intro exI [of _ "Popen c # es"] exI [of _ "nm # hs"] exI [of _ rs] conjI)
qed

lemma supervised_nexus_timed_out: "supervised [] nexus_timed_out"
  unfolding supervised_def
proof
  fix s
  show "\<exists>es hs rs.
        fst (nexus_timed_out s) = (logged s es)\<lparr>running := rs, atexit_hooks := atexit_hooks s @ hs\<rparr> \<and>
        set rs \<subseteq> set (running s) \<union> set hs \<and>
        prefix hs [] \<and> (\<not> isl (snd (nexus_timed_out s)) \<longrightarrow> hs = []) \<and>
        (\<forall>nm. launches nm es = count_list hs nm \<and> waits nm es = 0 \<and>
              (terminations nm es = 0 \<or>
               nm = ''nexus'' \<and> terminations nm es = 1 \<and>
               snd (nexus_timed_out s) = Inl (SystemExit 77)))"
    unfolding nexus_timed_out_eq
    by (intro exI [of _ "[Terminate ''nexus'', Print ''Nexus timed out'']"] exI [of _ "[]"]
          exI [of _ "removeAll ''nexus'' (running s)"])
       (simp add: launches_def waits_def terminations_def logged_def)
qed

lemma supervised_nexus_poll: "supervised [] (nexus_poll env xs)"
proof (induction xs)
  case Nil
  show ?case by (simp add: supervised_calm emits_ret)
next
  case (Cons i xs)
  show ?case
    unfolding nexus_poll.simps
    by (intro supervised_pre supervised_calm [OF emits_probe])
       (auto intro!: supervised_pre supervised_nexus_timed_out Cons
          supervised_calm [OF emits_ret] supervised_calm [OF emits_sleep])
qed

lemma supervised_startSandbox: "supervised [''sandbox''] (startSandbox env dbname)"
  unfolding startSandbox_def Let_def
  by (intro supervised_pre supervised_launch supervised_calm [OF emits_check_call]
        supervised_calm [OF emits_checkPort] supervised_calm [OF emits_sandbox_poll])
     (simp_all add: sandbox_child_def)

lemma supervised_startNexus: "supervised [''nexus''] (startNexus env dbname)"
  unfolding startNexus_def Let_def
  by (intro supervised_pre supervised_launch supervised_calm [OF emits_check_call]
        supervised_calm [OF emits_checkPort] supervised_nexus_poll supervised_calm [OF emits_ret])
     (simp_all add: nexus_child_def)

lemma supervised_test_ebics: "supervised [''sandbox'', ''nexus''] (test_ebics env)"
proof -
  have "emits calm (from_step_0 env)"
    by (rule emits_scenario) simp_all
  then have "supervised ([''sandbox''] @ [''nexus'']) (test_ebics env)"
    unfolding test_ebics_def
    by (intro supervised_bnd supervised_post supervised_startSandbox supervised_startNexus
          supervised_calm)
  then show ?thesis by simp
qed

lemma tally_traceback:
  "launches nm (case r of Inl (Raised e) \<Rightarrow> [Traceback e] | _ \<Rightarrow> []) = 0 \<and>
   terminations nm (case r of Inl (Raised e) \<Rightarrow> [Traceback e] | _ \<Rightarrow> []) = 0 \<and>
   waits nm (case r of Inl (Raised e) \<Rightarrow> [Traceback e] | _ \<Rightarrow> []) = 0"
  by (simp add: launches_def terminations_def waits_def split: sum.splits abort.splits)

lemma count_two: "prefix hs [a, b] \<Longrightarrow> a \<noteq> b \<Longrightarrow> count_list hs nm \<le> 1"
  by (cases hs; cases "tl hs") (auto simp add: prefix_Cons)


lemma kill_dead:
  "nm \<notin> set (running s) \<Longrightarrow> kill nm s = (logged s (kill_events nm), Inr ())"
  by (simp add: kill_eq logged_def)

text \<open>
  C7. Take any run of the script that ends, whatever the environment does and however
  it ends. Every child is launched at most once and has its exit hook registered as
  often as it was launched. The script itself never waits for a child, and the only
  terminate it sends is the one of startNexus before exit code 77. After the script has
  ended, each launched child is sent terminate once and waited for once, by its exit
  hook, and no child runs when the process is gone. The hook is harmless on a child
  that is dead already: it returns normally and changes nothing but the log.
\<close>

theorem exit_hooks_run_once:
  assumes "snd (python (test_ebics env) (fresh busy denied)) = Some status"
  shows "launches nm (events (fst (test_ebics env (fresh busy denied)))) \<le> 1 \<and>
     count_list (atexit_hooks (fst (test_ebics env (fresh busy denied)))) nm
       = launches nm (events (fst (test_ebics env (fresh busy denied)))) \<and>
     waits nm (events (fst (test_ebics env (fresh busy denied)))) = 0 \<and>
     (terminations nm (events (fst (test_ebics env (fresh busy denied)))) = 0 \<or>
      nm = ''nexus'' \<and> status = 77 \<and>
      terminations nm (events (fst (test_ebics env (fresh busy denied)))) = 1) \<and>
     launches nm (exit_log (test_ebics env) (fresh busy denied)) = 0 \<and>
     terminations nm (exit_log (test_ebics env) (fresh busy denied))
       = launches nm (events (fst (test_ebics env (fresh busy denied)))) \<and>
     waits nm (exit_log (test_ebics env) (fresh busy denied))
       = launches nm (events (fst (test_ebics env (fresh busy denied)))) \<and>
     nm \<notin> set (running (fst (python (test_ebics env) (fresh busy denied)))) \<and>
     (\<forall>s. nm \<notin> set (running s) \<longrightarrow> kill nm s = (logged s (kill_events nm), Inr ()))"
proof -
  let ?s0 = "fresh busy denied"
  let ?S = "fst (test_ebics env ?s0)"
  let ?r = "snd (test_ebics env ?s0)"
  let ?tb = "case ?r of Inl (Raised e) \<Rightarrow> [Traceback e] | _ \<Rightarrow> []"
  have s0: "events ?s0 = []" "atexit_hooks ?s0 = []" "running ?s0 = []"
    by (simp_all add: fresh_def)
  from supervisedD [OF supervised_test_ebics, of env ?s0] obtain es hs rs where
    1: "?S = (logged ?s0 es)\<lparr>running := rs, atexit_hooks := atexit_hooks ?s0 @ hs\<rparr>"
    and r: "set rs \<subseteq> set (running ?s0) \<union> set hs"
    and 2: "prefix hs [''sandbox'', ''nexus'']"
    and 4: "\<forall>nm. launches nm es = count_list hs nm \<and> waits nm es = 0 \<and>
              (terminations nm es = 0 \<or>
               nm = ''nexus'' \<and> terminations nm es = 1 \<and> ?r = Inl (SystemExit 77))"
    by (elim exE conjE)
  have ev: "events ?S = es" and hk: "atexit_hooks ?S = hs" and rn: "running ?S = rs"
    unfolding 1 by (simp_all add: s0)
  from assms have ex: "exit_status ?r = Some status"
    by (simp add: python_eq split: option.splits)
  have py: "fst (python (test_ebics env) ?s0)
      = (logged ?S (?tb @ concat (map kill_events (rev hs))))
          \<lparr>running := filter (\<lambda>x. x \<notin> set hs) rs\<rparr>"
    unfolding python_eq ex hk rn by simp
  have xl: "exit_log (test_ebics env) ?s0 = ?tb @ concat (map kill_events (rev hs))"
    unfolding exit_log_def py by simp
  from r have "filter (\<lambda>x. x \<notin> set hs) rs = []"
    unfolding s0 by (auto simp add: filter_empty_conv)
  then have dead: "nm \<notin> set (running (fst (python (test_ebics env) ?s0)))"
    unfolding py by simp
  have hooks: "\<And>n. launches n (concat (map kill_events (rev hs))) = 0"
    "\<And>n. terminations n (concat (map kill_events (rev hs))) = count_list hs n"
    "\<And>n. waits n (concat (map kill_events (rev hs))) = count_list hs n"
    using tally_hooks [of _ "rev hs"] by simp_all
  from 2 have le: "count_list hs nm \<le> 1"
    by (rule count_two) simp
  from 4 have l: "launches nm es = count_list hs nm" and w: "waits nm es = 0"
    and t: "terminations nm es = 0 \<or>
               nm = ''nexus'' \<and> terminations nm es = 1 \<and> ?r = Inl (SystemExit 77)"
    by simp_all
  have idem: "\<forall>s. nm \<notin> set (running s) \<longrightarrow> kill nm s = (logged s (kill_events nm), Inr ())"
    by (simp add: kill_dead)
  have t': "terminations nm es = 0 \<or> nm = ''nexus'' \<and> status = 77 \<and> terminations nm es = 1"
    using t
  proof
    assume "terminations nm es = 0"
    then show ?thesis ..
  next
    assume a: "nm = ''nexus'' \<and> terminations nm es = 1 \<and> ?r = Inl (SystemExit 77)"
    from a have n: "nm = ''nexus''" ..
    from a have b: "terminations nm es = 1 \<and> ?r = Inl (SystemExit 77)" ..
    from b have t1: "terminations nm es = 1" ..
    from b have "?r = Inl (SystemExit 77)" ..
    with ex have "status = 77" by simp
    with n t1 show ?thesis by simp
  qed
  have a1: "launches nm (events ?S) \<le> 1"
    unfolding ev l by (rule le)
  have a2: "count_list (atexit_hooks ?S) nm = launches nm (events ?S)"
    unfolding ev hk l ..
  have a3: "waits nm (events ?S) = 0"
    unfolding ev by (rule w)
  have a4: "terminations nm (events ?S) = 0 \<or>
      nm = ''nexus'' \<and> status = 77 \<and> terminations nm (events ?S) = 1"
    unfolding ev by (rule t')
  have a5: "launches nm (exit_log (test_ebics env) ?s0) = 0"
    unfolding xl by (simp add: hooks tally_traceback)
  have a6: "terminations nm (exit_log (test_ebics env) ?s0) = launches nm (events ?S)"
    unfolding xl ev l by (simp add: hooks tally_traceback)
  have a7: "waits nm (exit_log (test_ebics env) ?s0) = launches nm (events ?S)"
    unfolding xl ev l by (simp add: hooks tally_traceback)
  from a1 a2 a3 a4 a5 a6 a7 dead idem show ?thesis
    by (intro conjI)
qed

lemma calm_replicate:
  "list_all calm es \<Longrightarrow> list_all calm (concat (replicate n es))"
  by (induction n) simp_all

lemma nexus_unreachable_run:
  "test_ebics (env_of nexus_unreachable) (fresh [] [])
     = ((logged (fresh [] [])
           (sandbox_preamble ''/tmp/sandbox-test.sqlite3'' @ [Http sandbox_probe]
            @ nexus_preamble ''/tmp/test-nexus.sqlite3''
            @ concat (replicate 79 [Http nexus_probe, Sleep 1])
            @ [Http nexus_probe, Terminate ''nexus'', Print ''Nexus timed out'']))
          \<lparr>running := [''sandbox''], atexit_hooks := [''sandbox'', ''nexus'']\<rparr>,
        Inl (SystemExit 77))"
proof -
  let ?env = "env_of nexus_unreachable"
  have ok: "\<And>cmd. check_call_ok ?env cmd" and db: "\<And>n. db_path ?env n = ''/tmp/'' @ n"
    and up: "\<And>h. server ?env h sandbox_probe = Answer (ok_response (JObj []))"
    and down: "\<And>h. server ?env h nexus_probe = Refused"
    by (simp_all add: env_of_def nexus_unreachable_def sandbox_probe_def nexus_probe_def)
  let ?s1 = "(logged (fresh [] []) (sandbox_preamble ''/tmp/sandbox-test.sqlite3'' @ [Http sandbox_probe]))
          \<lparr>running := running (fresh [] []) @ [''sandbox''],
           atexit_hooks := atexit_hooks (fresh [] []) @ [''sandbox'']\<rparr>"
  have free: "bind_error 5000 (fresh [] []) = None" "bind_error 5001 ?s1 = None"
    by (simp_all add: bind_error_def fresh_def logged_def)
  have a: "startSandbox ?env ''sandbox-test.sqlite3'' (fresh [] []) = (?s1, Inr ())"
    using startSandbox_run [of ?env "''sandbox-test.sqlite3''" "fresh [] []" 0, OF ok ok free(1)]
    unfolding up db by simp
  have b: "startNexus ?env ''test-nexus.sqlite3'' ?s1
     = ((logged ?s1 (nexus_preamble ''/tmp/test-nexus.sqlite3''
                     @ concat (replicate 79 [Http nexus_probe, Sleep 1])
                     @ [Http nexus_probe, Terminate ''nexus'', Print ''Nexus timed out'']))
          \<lparr>running := removeAll ''nexus'' (running ?s1),
           atexit_hooks := atexit_hooks ?s1 @ [''nexus'']\<rparr>,
        Inl (SystemExit 77))"
    using startNexus_run [of ?env "''test-nexus.sqlite3''" ?s1 79, OF ok ok ok free(2)]
    unfolding down db by simp
  have "test_ebics ?env (fresh [] [])
          = (fst (startNexus ?env ''test-nexus.sqlite3'' ?s1), Inl (SystemExit 77))"
    unfolding test_ebics_def NEXUS_DB_def by (simp add: bnd_def a b)
  then show ?thesis
    unfolding b by (simp add: fresh_def logged_def)
qed

theorem exit_hooks_run_once_witness:
  "snd (python (test_ebics (env_of nexus_unreachable)) (fresh [] [])) = Some 77 \<and>
   launches ''nexus'' (events (fst (test_ebics (env_of nexus_unreachable) (fresh [] [])))) = 1 \<and>
   terminations ''nexus'' (events (fst (test_ebics (env_of nexus_unreachable) (fresh [] [])))) = 1 \<and>
   terminations ''nexus'' (exit_log (test_ebics (env_of nexus_unreachable)) (fresh [] [])) = 1 \<and>
   waits ''nexus'' (exit_log (test_ebics (env_of nexus_unreachable)) (fresh [] [])) = 1 \<and>
   ''nexus'' \<notin> set (running (fst (python (test_ebics (env_of nexus_unreachable)) (fresh [] [])))) \<and>
   kill ''nexus'' (fresh [] []) = (logged (fresh [] []) (kill_events ''nexus''), Inr ())"
proof -
  let ?run = "test_ebics (env_of nexus_unreachable)"
  have st: "snd (python ?run (fresh [] [])) = Some 77"
    by (simp add: python_eq nexus_unreachable_run)
  have c: "list_all calm (concat (replicate 79 [Http nexus_probe, Sleep 1]))"
    by (rule calm_replicate) simp
  have z: "launches ''nexus'' (concat (replicate 79 [Http nexus_probe, Sleep 1])) = 0"
    "terminations ''nexus'' (concat (replicate 79 [Http nexus_probe, Sleep 1])) = 0"
    using tally_calm [OF c] by simp_all
  have l: "launches ''nexus'' (events (fst (?run (fresh [] [])))) = 1"
    unfolding nexus_unreachable_run
    by (simp add: z fresh_def) (simp add: launches_def sandbox_preamble_def nexus_preamble_def)
  have t: "terminations ''nexus'' (events (fst (?run (fresh [] [])))) = 1"
    unfolding nexus_unreachable_run
    by (simp add: z fresh_def) (simp add: terminations_def sandbox_preamble_def nexus_preamble_def)
  have d: "''nexus'' \<notin> set (running (fresh [] []))"
    by (simp add: fresh_def)
  note h = exit_hooks_run_once [of "env_of nexus_unreachable" "[]" "[]" 77 "''nexus''", OF st]
  from h have h5: "terminations ''nexus'' (exit_log ?run (fresh [] []))
       = launches ''nexus'' (events (fst (?run (fresh [] []))))"
    by (elim conjE)
  from h have h6: "waits ''nexus'' (exit_log ?run (fresh [] []))
       = launches ''nexus'' (events (fst (?run (fresh [] []))))"
    by (elim conjE)
  from h have h7: "''nexus'' \<notin> set (running (fst (python ?run (fresh [] []))))"
    by (elim conjE)
  from h have i: "\<forall>s. ''nexus'' \<notin> set (running s) \<longrightarrow>
      kill ''nexus'' s = (logged s (kill_events ''nexus''), Inr ())"
    by (elim conjE)
  have h8: "kill ''nexus'' (fresh [] []) = (logged (fresh [] []) (kill_events ''nexus''), Inr ())"
    by (rule i [rule_format, OF d])
  from st l t h5 [unfolded l] h6 [unfolded l] h7 h8 show ?thesis
    by (intro conjI)
qed

end
